theory Spec2Isabelle
  imports Complex_Main "HOL-Library.Sublist" "HOL-Library.Log_Nat"
begin

section \<open>Go strings: bytes, runes and the functions of package strings\<close>

text \<open>
  A Go string is a sequence of bytes; \<open>len\<close> and slicing count bytes. It is modelled
  as \<^typ>\<open>string\<close> (a list of 8-bit characters). A rune is a Unicode code point, a
  natural number here. Ranging over a string, and every function of package
  \<open>strings\<close> that speaks of characters, decodes UTF-8 as package \<open>utf8\<close> does: a byte
  that does not start a well-formed shortest-form sequence decodes to \<open>RuneError\<close>
  (U+FFFD) of width 1.
\<close>

definition RuneError :: nat where
  "RuneError = 0xFFFD"

definition cont :: "nat \<Rightarrow> bool" where
  "cont b = (0x80 \<le> b \<and> b \<le> 0xBF)"

text \<open>The accepted range of the second byte, by the first byte of a 3-byte and of a 4-byte sequence.\<close>

definition accept3 :: "nat \<Rightarrow> nat \<Rightarrow> bool" where
  "accept3 b0 b1 =
     (if b0 = 0xE0 then 0xA0 \<le> b1 \<and> b1 \<le> 0xBF
      else if b0 = 0xED then 0x80 \<le> b1 \<and> b1 \<le> 0x9F
      else cont b1)"

definition accept4 :: "nat \<Rightarrow> nat \<Rightarrow> bool" where
  "accept4 b0 b1 =
     (if b0 = 0xF0 then 0x90 \<le> b1 \<and> b1 \<le> 0xBF
      else if b0 = 0xF4 then 0x80 \<le> b1 \<and> b1 \<le> 0x8F
      else cont b1)"

text \<open>\<open>utf8.DecodeRuneInString\<close>: the first rune of the string and its width in bytes.\<close>

fun decodeRune :: "string \<Rightarrow> nat \<times> nat" where
  "decodeRune [] = (RuneError, 0)"
| "decodeRune (c0 # cs) =
     (let b0 = of_char c0 in
      if b0 < 0x80 then (b0, 1)
      else if 0xC2 \<le> b0 \<and> b0 \<le> 0xDF then
        (case cs of
           c1 # _ \<Rightarrow>
             if cont (of_char c1) then ((b0 - 0xC0) * 64 + (of_char c1 - 0x80), 2)
             else (RuneError, 1)
         | [] \<Rightarrow> (RuneError, 1))
      else if 0xE0 \<le> b0 \<and> b0 \<le> 0xEF then
        (case cs of
           c1 # c2 # _ \<Rightarrow>
             if accept3 b0 (of_char c1) \<and> cont (of_char c2)
             then ((b0 - 0xE0) * 4096 + (of_char c1 - 0x80) * 64 + (of_char c2 - 0x80), 3)
             else (RuneError, 1)
         | _ \<Rightarrow> (RuneError, 1))
      else if 0xF0 \<le> b0 \<and> b0 \<le> 0xF4 then
        (case cs of
           c1 # c2 # c3 # _ \<Rightarrow>
             if accept4 b0 (of_char c1) \<and> cont (of_char c2) \<and> cont (of_char c3)
             then ((b0 - 0xF0) * 262144 + (of_char c1 - 0x80) * 4096
                   + (of_char c2 - 0x80) * 64 + (of_char c3 - 0x80), 4)
             else (RuneError, 1)
         | _ \<Rightarrow> (RuneError, 1))
      else (RuneError, 1))"

text \<open>\<open>utf8.AppendRune\<close>: surrogates and values beyond U+10FFFF are written as U+FFFD.\<close>

definition encodeRune :: "nat \<Rightarrow> string" where
  "encodeRune r =
     (if r \<le> 0x7F then [char_of r]
      else if r \<le> 0x7FF then [char_of (0xC0 + r div 64), char_of (0x80 + r mod 64)]
      else if 0x10FFFF < r \<or> (0xD800 \<le> r \<and> r \<le> 0xDFFF) then [CHR 0xEF, CHR 0xBF, CHR 0xBD]
      else if r \<le> 0xFFFF then
        [char_of (0xE0 + r div 4096), char_of (0x80 + r div 64 mod 64), char_of (0x80 + r mod 64)]
      else
        [char_of (0xF0 + r div 262144), char_of (0x80 + r div 4096 mod 64),
         char_of (0x80 + r div 64 mod 64), char_of (0x80 + r mod 64)])"

lemma decodeRune_width:
  "s \<noteq> [] \<Longrightarrow> 1 \<le> snd (decodeRune s) \<and> snd (decodeRune s) \<le> length s"
  by (cases s) (auto simp: Let_def split: list.splits)

text \<open>
  \<open>for i, r := range s\<close>: the byte offset and the code point of every rune of \<open>s\<close>, in
  order; \<open>rangeStr i s\<close> ranges over the suffix \<open>s\<close> that starts at offset \<open>i\<close>.
\<close>

function rangeStr :: "nat \<Rightarrow> string \<Rightarrow> (nat \<times> nat) list" where
  "rangeStr i s =
     (if s = [] then []
      else (i, fst (decodeRune s)) # rangeStr (i + snd (decodeRune s)) (drop (snd (decodeRune s)) s))"
  by pat_completeness auto
termination
proof (relation "measure (\<lambda>(i, s). length s)")
  show "wf (measure (\<lambda>(i, s). length s))" by simp
next
  fix i :: nat and s :: string
  assume "s \<noteq> []"
  then have "1 \<le> snd (decodeRune s)" using decodeRune_width by blast
  with \<open>s \<noteq> []\<close> show "((i + snd (decodeRune s), drop (snd (decodeRune s)) s), (i, s))
      \<in> measure (\<lambda>(i, s). length s)"
    by simp
qed

declare rangeStr.simps [simp del]

text \<open>\<open>unicode.IsSpace\<close>: the Latin-1 spaces and the code points with the White_Space property.\<close>

definition isSpace :: "nat \<Rightarrow> bool" where
  "isSpace r =
     ((0x09 \<le> r \<and> r \<le> 0x0D) \<or> r = 0x20 \<or> r = 0x85 \<or> r = 0xA0 \<or> r = 0x1680
      \<or> (0x2000 \<le> r \<and> r \<le> 0x200A) \<or> r = 0x2028 \<or> r = 0x2029 \<or> r = 0x202F
      \<or> r = 0x205F \<or> r = 0x3000)"

text \<open>\<open>utf8.RuneCountInString\<close>: the length of a string in characters.\<close>

definition runeCount :: "string \<Rightarrow> nat" where
  "runeCount s = length (rangeStr 0 s)"

subsection \<open>Trimming and splitting on white space\<close>

text \<open>
  \<open>spaceWidth s\<close> is the width of the white-space rune \<open>s\<close> starts with, and 0 when \<open>s\<close>
  does not start with one; \<open>spaceWidthLast s\<close> is the width of the white-space rune \<open>s\<close>
  ends with (its last 1, 2 or 3 bytes are the encoding of exactly one such rune), and
  0 when it does not end with one.
\<close>

definition spaceWidth :: "string \<Rightarrow> nat" where
  "spaceWidth s = (if isSpace (fst (decodeRune s)) then snd (decodeRune s) else 0)"

definition lastBytes :: "nat \<Rightarrow> string \<Rightarrow> string" where
  "lastBytes k s = drop (length s - k) s"

definition spaceRuneOfWidth :: "nat \<Rightarrow> string \<Rightarrow> bool" where
  "spaceRuneOfWidth k w = (length w = k \<and> isSpace (fst (decodeRune w)) \<and> snd (decodeRune w) = k)"

definition spaceWidthLast :: "string \<Rightarrow> nat" where
  "spaceWidthLast s =
     (if spaceRuneOfWidth 1 (lastBytes 1 s) then 1
      else if spaceRuneOfWidth 2 (lastBytes 2 s) then 2
      else if spaceRuneOfWidth 3 (lastBytes 3 s) then 3
      else 0)"

text \<open>\<open>strings.TrimLeftFunc(s, unicode.IsSpace)\<close> and \<open>strings.TrimRightFunc(s, unicode.IsSpace)\<close>.\<close>

function trimLeft :: "string \<Rightarrow> string" where
  "trimLeft s = (if spaceWidth s = 0 then s else trimLeft (drop (spaceWidth s) s))"
  by pat_completeness auto
termination
proof (relation "measure length")
  show "wf (measure length)" by simp
next
  fix s :: string
  assume a: "spaceWidth s \<noteq> 0"
  then have "s \<noteq> []" by (auto simp: spaceWidth_def split: if_splits)
  with a show "(drop (spaceWidth s) s, s) \<in> measure length" by simp
qed

declare trimLeft.simps [simp del]

function trimRight :: "string \<Rightarrow> string" where
  "trimRight s =
     (if spaceWidthLast s = 0 then s else trimRight (take (length s - spaceWidthLast s) s))"
  by pat_completeness auto
termination
proof (relation "measure length")
  show "wf (measure length)" by simp
next
  fix s :: string
  assume a: "spaceWidthLast s \<noteq> 0"
  then have "s \<noteq> []"
    by (auto simp: spaceWidthLast_def spaceRuneOfWidth_def lastBytes_def split: if_splits)
  with a show "(take (length s - spaceWidthLast s) s, s) \<in> measure length" by simp
qed

declare trimRight.simps [simp del]

text \<open>\<open>strings.TrimSpace\<close>: all leading and trailing white space removed.\<close>

definition TrimSpace :: "string \<Rightarrow> string" where
  "TrimSpace s = trimRight (trimLeft s)"

text \<open>
  \<open>strings.Fields\<close>: the maximal runs of runes that are not white space. \<open>fieldsFrom cur s\<close>
  scans \<open>s\<close> with the bytes \<open>cur\<close> of the field it is in.
\<close>

function fieldsFrom :: "string \<Rightarrow> string \<Rightarrow> string list" where
  "fieldsFrom cur s =
     (if s = [] then (if cur = [] then [] else [cur])
      else if isSpace (fst (decodeRune s))
        then (if cur = [] then [] else [cur]) @ fieldsFrom [] (drop (snd (decodeRune s)) s)
        else fieldsFrom (cur @ take (snd (decodeRune s)) s) (drop (snd (decodeRune s)) s))"
  by pat_completeness auto
termination
proof (relation "measure (\<lambda>(cur, s). length s)")
  show "wf (measure (\<lambda>(cur, s). length s))" by simp
next
  fix cur s :: string
  assume "s \<noteq> []"
  then have "1 \<le> snd (decodeRune s)" using decodeRune_width by blast
  with \<open>s \<noteq> []\<close> show "(([], drop (snd (decodeRune s)) s), (cur, s)) \<in> measure (\<lambda>(cur, s). length s)"
    by simp
next
  fix cur s :: string
  assume "s \<noteq> []"
  then have "1 \<le> snd (decodeRune s)" using decodeRune_width by blast
  with \<open>s \<noteq> []\<close> show "((cur @ take (snd (decodeRune s)) s, drop (snd (decodeRune s)) s), (cur, s))
      \<in> measure (\<lambda>(cur, s). length s)"
    by simp
qed

declare fieldsFrom.simps [simp del]

definition Fields :: "string \<Rightarrow> string list" where
  "Fields s = fieldsFrom [] s"

text \<open>\<open>strings.Join\<close>.\<close>

fun Join :: "string list \<Rightarrow> string \<Rightarrow> string" where
  "Join [] sep = []"
| "Join [x] sep = x"
| "Join (x # y # ys) sep = x @ sep @ Join (y # ys) sep"

subsection \<open>Searching\<close>

text \<open>\<open>strings.HasPrefix\<close> and \<open>strings.Contains\<close>, on bytes.\<close>

fun HasPrefix :: "string \<Rightarrow> string \<Rightarrow> bool" where
  "HasPrefix s [] = True"
| "HasPrefix [] (p # ps) = False"
| "HasPrefix (c # cs) (p # ps) = (c = p \<and> HasPrefix cs ps)"

fun Contains :: "string \<Rightarrow> string \<Rightarrow> bool" where
  "Contains [] sub = (sub = [])"
| "Contains (c # cs) sub = (HasPrefix (c # cs) sub \<or> Contains cs sub)"

text \<open>
  \<open>strings.IndexAny(s, chars)\<close>: the byte offset of the first rune of \<open>s\<close> that is one of
  the runes of \<open>chars\<close>, and -1 when there is none.
\<close>

fun firstIndexIn :: "nat list \<Rightarrow> (nat \<times> nat) list \<Rightarrow> int" where
  "firstIndexIn rs [] = -1"
| "firstIndexIn rs ((i, r) # xs) = (if r \<in> set rs then int i else firstIndexIn rs xs)"

definition IndexAny :: "string \<Rightarrow> string \<Rightarrow> int" where
  "IndexAny s chars = firstIndexIn (map snd (rangeStr 0 chars)) (rangeStr 0 s)"

subsection \<open>Lower case\<close>

text \<open>
  \<open>unicode.ToLower\<close> maps A to Z by itself and takes every rune beyond ASCII through the
  case tables of the Unicode standard. Those tables are data of the Go library, not of
  this program: they are the parameter \<open>tbl\<close> of every function that lowers case, and
  what is proved holds for each table. \<open>strings.ToLower\<close> maps every rune of the string
  and writes the result back as UTF-8, so that a malformed byte is written as U+FFFD.
\<close>

definition toLowerRune :: "(nat \<Rightarrow> nat) \<Rightarrow> nat \<Rightarrow> nat" where
  "toLowerRune tbl r =
     (if r \<le> 0x7F then (if 0x41 \<le> r \<and> r \<le> 0x5A then r + 0x20 else r) else tbl r)"

definition ToLower :: "(nat \<Rightarrow> nat) \<Rightarrow> string \<Rightarrow> string" where
  "ToLower tbl s = concat (map (\<lambda>(i, r). encodeRune (toLowerRune tbl r)) (rangeStr 0 s))"

text \<open>
  The rows of the case table for the Cyrillic block U+0400 to U+045F; the identity
  elsewhere. It stands for the table where a concrete one is needed, on text made of
  ASCII and of that block.
\<close>

definition cyrillicLower :: "nat \<Rightarrow> nat" where
  "cyrillicLower r =
     (if 0x410 \<le> r \<and> r \<le> 0x42F then r + 0x20
      else if 0x400 \<le> r \<and> r \<le> 0x40F then r + 0x50
      else r)"

section \<open>The sentence splitter\<close>

text \<open>
  The slice expression \<open>s[lo:hi]\<close>. Every slice of the program is taken within the
  bounds of its string: below a length test, or at the offset of a rune of the string.
\<close>

definition slice :: "string \<Rightarrow> nat \<Rightarrow> nat \<Rightarrow> string" where
  "slice s lo hi = take (hi - lo) (drop lo s)"

text \<open>The runes \<open>.\<close>, \<open>!\<close>, \<open>?\<close> and the horizontal ellipsis U+2026.\<close>

definition isTerminator :: "nat \<Rightarrow> bool" where
  "isTerminator r = (r = 0x2E \<or> r = 0x21 \<or> r = 0x3F \<or> r = 0x2026)"

text \<open>
  \<open>splitSentences\<close>: the loop over the runes of \<open>s\<close> carries the sentences found so far
  and the offset \<open>start\<close> of the open one.
\<close>

fun splitLoop :: "string \<Rightarrow> (nat \<times> nat) list \<Rightarrow> string list \<Rightarrow> nat \<Rightarrow> string list \<times> nat" where
  "splitLoop s [] out start = (out, start)"
| "splitLoop s ((i, r) # rs) out start =
     (if isTerminator r then
        (let part = TrimSpace (slice s start (i + 1)) in
         splitLoop s rs (if part \<noteq> [] then out @ [part] else out) (i + 1))
      else splitLoop s rs out start)"

definition splitSentences :: "string \<Rightarrow> string list" where
  "splitSentences s =
     (case splitLoop s (rangeStr 0 s) [] 0 of
        (out, start) \<Rightarrow>
          if start < length s then
            (let tail = TrimSpace (drop start s) in
             if tail \<noteq> [] then out @ [tail] else out)
          else out)"

section \<open>The heuristic classifier\<close>

text \<open>The string literals of \<open>heuristicSummarize\<close>, as the UTF-8 bytes of the source file.\<close>

definition msgUndetermined :: string where
  "msgUndetermined =
     [CHR 0xD0, CHR 0x98, CHR 0xD0, CHR 0xBD, CHR 0xD1, CHR 0x84, CHR 0xD0, CHR 0xBE, CHR 0xD1,
      CHR 0x80, CHR 0xD0, CHR 0xBC, CHR 0xD0, CHR 0xB0, CHR 0xD1, CHR 0x86, CHR 0xD0, CHR 0xB8,
      CHR 0xD1, CHR 0x8F, CHR '' '', CHR 0xD0, CHR 0xBE, CHR '' '', CHR 0xD1, CHR 0x81,
      CHR 0xD0, CHR 0xB0, CHR 0xD0, CHR 0xB9, CHR 0xD1, CHR 0x82, CHR 0xD0, CHR 0xB5,
      CHR '' '', CHR 0xD0, CHR 0xBD, CHR 0xD0, CHR 0xB5, CHR '' '', CHR 0xD0, CHR 0xBE,
      CHR 0xD0, CHR 0xBF, CHR 0xD1, CHR 0x80, CHR 0xD0, CHR 0xB5, CHR 0xD0, CHR 0xB4, CHR 0xD0,
      CHR 0xB5, CHR 0xD0, CHR 0xBB, CHR 0xD0, CHR 0xB5, CHR 0xD0, CHR 0xBD, CHR 0xD0, CHR 0xB0]"

definition marketplaceWords :: "string list" where
  "marketplaceWords =
     [[CHR 0xD0, CHR 0xBC, CHR 0xD0, CHR 0xB0, CHR 0xD1, CHR 0x80, CHR 0xD0, CHR 0xBA,
       CHR 0xD0, CHR 0xB5, CHR 0xD1, CHR 0x82, CHR 0xD0, CHR 0xBF, CHR 0xD0, CHR 0xBB,
       CHR 0xD0, CHR 0xB5, CHR 0xD0, CHR 0xB9, CHR 0xD1, CHR 0x81],
      [CHR 0xD0, CHR 0xBF, CHR 0xD1, CHR 0x80, CHR 0xD0, CHR 0xBE, CHR 0xD0, CHR 0xB4,
       CHR 0xD0, CHR 0xB0, CHR 0xD0, CHR 0xB2, CHR 0xD1, CHR 0x86, CHR 0xD1, CHR 0x8B],
      [CHR 0xD0, CHR 0xBF, CHR 0xD1, CHR 0x80, CHR 0xD0, CHR 0xBE, CHR 0xD0, CHR 0xB4,
       CHR 0xD0, CHR 0xB0, CHR 0xD0, CHR 0xB2, CHR 0xD1, CHR 0x86, CHR 0xD0, CHR 0xBE,
       CHR 0xD0, CHR 0xB2],
      [CHR 0xD0, CHR 0xBE, CHR 0xD1, CHR 0x82, CHR 0xD0, CHR 0xB7, CHR 0xD1, CHR 0x8B,
       CHR 0xD0, CHR 0xB2, CHR 0xD1, CHR 0x8B],
      [CHR 0xD1, CHR 0x80, CHR 0xD0, CHR 0xB5, CHR 0xD0, CHR 0xB9, CHR 0xD1, CHR 0x82,
       CHR 0xD0, CHR 0xB8, CHR 0xD0, CHR 0xBD, CHR 0xD0, CHR 0xB3]]"

definition goodsWords :: "string list" where
  "goodsWords =
     [[CHR 0xD1, CHR 0x82, CHR 0xD0, CHR 0xBE, CHR 0xD0, CHR 0xB2, CHR 0xD0, CHR 0xB0,
       CHR 0xD1, CHR 0x80],
      [CHR 0xD0, CHR 0xBA, CHR 0xD0, CHR 0xB0, CHR 0xD1, CHR 0x82, CHR 0xD0, CHR 0xB0,
       CHR 0xD0, CHR 0xBB, CHR 0xD0, CHR 0xBE, CHR 0xD0, CHR 0xB3],
      [CHR 0xD0, CHR 0xBA, CHR 0xD1, CHR 0x83, CHR 0xD0, CHR 0xBF, CHR 0xD0, CHR 0xB8,
       CHR 0xD1, CHR 0x82, CHR 0xD1, CHR 0x8C],
      [CHR 0xD1, CHR 0x86, CHR 0xD0, CHR 0xB5, CHR 0xD0, CHR 0xBD, CHR 0xD1, CHR 0x8B],
      [CHR 0xD0, CHR 0xB4, CHR 0xD0, CHR 0xBE, CHR 0xD1, CHR 0x81, CHR 0xD1, CHR 0x82,
       CHR 0xD0, CHR 0xB0, CHR 0xD0, CHR 0xB2, CHR 0xD0, CHR 0xBA, CHR 0xD0, CHR 0xB0]]"

definition msgMarketplace :: string where
  "msgMarketplace =
     [CHR 0xD0, CHR 0x9C, CHR 0xD0, CHR 0xB0, CHR 0xD1, CHR 0x80, CHR 0xD0, CHR 0xBA, CHR 0xD0,
      CHR 0xB5, CHR 0xD1, CHR 0x82, CHR 0xD0, CHR 0xBF, CHR 0xD0, CHR 0xBB, CHR 0xD0, CHR 0xB5,
      CHR 0xD0, CHR 0xB9, CHR 0xD1, CHR 0x81, CHR '':'', CHR '' '', CHR 0xD1, CHR 0x82,
      CHR 0xD0, CHR 0xBE, CHR 0xD0, CHR 0xB2, CHR 0xD0, CHR 0xB0, CHR 0xD1, CHR 0x80, CHR 0xD1,
      CHR 0x8B, CHR '' '', CHR 0xD0, CHR 0xBE, CHR 0xD1, CHR 0x82, CHR '' '', CHR 0xD1,
      CHR 0x80, CHR 0xD0, CHR 0xB0, CHR 0xD0, CHR 0xB7, CHR 0xD0, CHR 0xBD, CHR 0xD1, CHR 0x8B,
      CHR 0xD1, CHR 0x85, CHR '' '', CHR 0xD0, CHR 0xBF, CHR 0xD1, CHR 0x80, CHR 0xD0,
      CHR 0xBE, CHR 0xD0, CHR 0xB4, CHR 0xD0, CHR 0xB0, CHR 0xD0, CHR 0xB2, CHR 0xD1, CHR 0x86,
      CHR 0xD0, CHR 0xBE, CHR 0xD0, CHR 0xB2, CHR ''.'']"

definition yandexMarketWords :: "string list" where
  "yandexMarketWords =
     [[CHR 0xD1, CHR 0x8F, CHR 0xD0, CHR 0xBD, CHR 0xD0, CHR 0xB4, CHR 0xD0, CHR 0xB5,
       CHR 0xD0, CHR 0xBA, CHR 0xD1, CHR 0x81, CHR '' '', CHR 0xD0, CHR 0xBC, CHR 0xD0,
       CHR 0xB0, CHR 0xD1, CHR 0x80, CHR 0xD0, CHR 0xBA, CHR 0xD0, CHR 0xB5, CHR 0xD1, CHR 0x82],
      ''market.yandex'',
      [CHR 0xD1, CHR 0x8F, CHR 0xD0, CHR 0xBD, CHR 0xD0, CHR 0xB4, CHR 0xD0, CHR 0xB5,
       CHR 0xD0, CHR 0xBA, CHR 0xD1, CHR 0x81, CHR 0xE2, CHR 0x80, CHR 0x91, CHR 0xD0,
       CHR 0xBC, CHR 0xD0, CHR 0xB0, CHR 0xD1, CHR 0x80, CHR 0xD0, CHR 0xBA, CHR 0xD0,
       CHR 0xB5, CHR 0xD1, CHR 0x82],
      ''yandex market'']"

definition msgYandexMarket :: string where
  "msgYandexMarket =
     [CHR 0xD0, CHR 0x9C, CHR 0xD0, CHR 0xB0, CHR 0xD1, CHR 0x80, CHR 0xD0, CHR 0xBA, CHR 0xD0,
      CHR 0xB5, CHR 0xD1, CHR 0x82, CHR 0xD0, CHR 0xBF, CHR 0xD0, CHR 0xBB, CHR 0xD0, CHR 0xB5,
      CHR 0xD0, CHR 0xB9, CHR 0xD1, CHR 0x81, CHR '':'', CHR '' '', CHR 0xD0, CHR 0xAF,
      CHR 0xD0, CHR 0xBD, CHR 0xD0, CHR 0xB4, CHR 0xD0, CHR 0xB5, CHR 0xD0, CHR 0xBA, CHR 0xD1,
      CHR 0x81, CHR '' '', CHR 0xD0, CHR 0x9C, CHR 0xD0, CHR 0xB0, CHR 0xD1, CHR 0x80,
      CHR 0xD0, CHR 0xBA, CHR 0xD0, CHR 0xB5, CHR 0xD1, CHR 0x82, CHR '' '', CHR ''('',
      CHR 0xD0, CHR 0xBE, CHR 0xD0, CHR 0xBD, CHR 0xD0, CHR 0xBB, CHR 0xD0, CHR 0xB0, CHR 0xD0,
      CHR 0xB9, CHR 0xD0, CHR 0xBD, CHR 0xE2, CHR 0x80, CHR 0x91, CHR 0xD0, CHR 0xBF, CHR 0xD0,
      CHR 0xBE, CHR 0xD0, CHR 0xBA, CHR 0xD1, CHR 0x83, CHR 0xD0, CHR 0xBF, CHR 0xD0, CHR 0xBA,
      CHR 0xD0, CHR 0xB8, CHR '')'', CHR ''.'']"

definition shopWords :: "string list" where
  "shopWords =
     [[CHR 0xD0, CHR 0xBA, CHR 0xD0, CHR 0xB0, CHR 0xD1, CHR 0x82, CHR 0xD0, CHR 0xB0,
       CHR 0xD0, CHR 0xBB, CHR 0xD0, CHR 0xBE, CHR 0xD0, CHR 0xB3],
      [CHR 0xD1, CHR 0x82, CHR 0xD0, CHR 0xBE, CHR 0xD0, CHR 0xB2, CHR 0xD0, CHR 0xB0,
       CHR 0xD1, CHR 0x80],
      [CHR 0xD0, CHR 0xBA, CHR 0xD1, CHR 0x83, CHR 0xD0, CHR 0xBF, CHR 0xD0, CHR 0xB8,
       CHR 0xD1, CHR 0x82, CHR 0xD1, CHR 0x8C],
      [CHR 0xD0, CHR 0xB7, CHR 0xD0, CHR 0xB0, CHR 0xD0, CHR 0xBA, CHR 0xD0, CHR 0xB0,
       CHR 0xD0, CHR 0xB7, CHR 0xD0, CHR 0xB0, CHR 0xD1, CHR 0x82, CHR 0xD1, CHR 0x8C],
      [CHR 0xD1, CHR 0x86, CHR 0xD0, CHR 0xB5, CHR 0xD0, CHR 0xBD, CHR 0xD1, CHR 0x8B],
      [CHR 0xD0, CHR 0xB4, CHR 0xD0, CHR 0xBE, CHR 0xD1, CHR 0x81, CHR 0xD1, CHR 0x82,
       CHR 0xD0, CHR 0xB0, CHR 0xD0, CHR 0xB2, CHR 0xD0, CHR 0xBA, CHR 0xD0, CHR 0xB0],
      [CHR 0xD0, CHR 0xBA, CHR 0xD0, CHR 0xBE, CHR 0xD1, CHR 0x80, CHR 0xD0, CHR 0xB7,
       CHR 0xD0, CHR 0xB8, CHR 0xD0, CHR 0xBD, CHR 0xD0, CHR 0xB0]]"

definition msgShop :: string where
  "msgShop =
     [CHR 0xD0, CHR 0x98, CHR 0xD0, CHR 0xBD, CHR 0xD1, CHR 0x82, CHR 0xD0, CHR 0xB5, CHR 0xD1,
      CHR 0x80, CHR 0xD0, CHR 0xBD, CHR 0xD0, CHR 0xB5, CHR 0xD1, CHR 0x82, CHR 0xE2, CHR 0x80,
      CHR 0x91, CHR 0xD0, CHR 0xBC, CHR 0xD0, CHR 0xB0, CHR 0xD0, CHR 0xB3, CHR 0xD0, CHR 0xB0,
      CHR 0xD0, CHR 0xB7, CHR 0xD0, CHR 0xB8, CHR 0xD0, CHR 0xBD, CHR '' '', CHR ''('',
      CHR 0xD0, CHR 0xBA, CHR 0xD0, CHR 0xB0, CHR 0xD1, CHR 0x82, CHR 0xD0, CHR 0xB0, CHR 0xD0,
      CHR 0xBB, CHR 0xD0, CHR 0xBE, CHR 0xD0, CHR 0xB3, CHR '' '', CHR 0xD1, CHR 0x82,
      CHR 0xD0, CHR 0xBE, CHR 0xD0, CHR 0xB2, CHR 0xD0, CHR 0xB0, CHR 0xD1, CHR 0x80, CHR 0xD0,
      CHR 0xBE, CHR 0xD0, CHR 0xB2, CHR '','', CHR '' '', CHR 0xD0, CHR 0xBF, CHR 0xD0,
      CHR 0xBE, CHR 0xD0, CHR 0xBA, CHR 0xD1, CHR 0x83, CHR 0xD0, CHR 0xBF, CHR 0xD0, CHR 0xBA,
      CHR 0xD0, CHR 0xB8, CHR '' '', CHR 0xD0, CHR 0xBE, CHR 0xD0, CHR 0xBD, CHR 0xD0,
      CHR 0xBB, CHR 0xD0, CHR 0xB0, CHR 0xD0, CHR 0xB9, CHR 0xD0, CHR 0xBD, CHR '')'',
      CHR ''.'']"

definition foodWords :: "string list" where
  "foodWords =
     [[CHR 0xD0, CHR 0xB4, CHR 0xD0, CHR 0xBE, CHR 0xD1, CHR 0x81, CHR 0xD1, CHR 0x82,
       CHR 0xD0, CHR 0xB0, CHR 0xD0, CHR 0xB2, CHR 0xD0, CHR 0xBA, CHR 0xD0, CHR 0xB0,
       CHR '' '', CHR 0xD0, CHR 0xB5, CHR 0xD0, CHR 0xB4, CHR 0xD1, CHR 0x8B],
      [CHR 0xD0, CHR 0xBF, CHR 0xD0, CHR 0xB8, CHR 0xD1, CHR 0x86, CHR 0xD1, CHR 0x86,
       CHR 0xD0, CHR 0xB0],
      [CHR 0xD1, CHR 0x81, CHR 0xD1, CHR 0x83, CHR 0xD1, CHR 0x88, CHR 0xD0, CHR 0xB8],
      [CHR 0xD1, CHR 0x80, CHR 0xD0, CHR 0xBE, CHR 0xD0, CHR 0xBB, CHR 0xD0, CHR 0xBB,
       CHR 0xD1, CHR 0x8B],
      [CHR 0xD0, CHR 0xB1, CHR 0xD1, CHR 0x83, CHR 0xD1, CHR 0x80, CHR 0xD0, CHR 0xB3,
       CHR 0xD0, CHR 0xB5, CHR 0xD1, CHR 0x80],
      [CHR 0xD0, CHR 0xB7, CHR 0xD0, CHR 0xB0, CHR 0xD0, CHR 0xBA, CHR 0xD0, CHR 0xB0,
       CHR 0xD0, CHR 0xB7, CHR '' '', CHR 0xD0, CHR 0xB5, CHR 0xD0, CHR 0xB4, CHR 0xD1,
       CHR 0x8B]]"

definition msgFood :: string where
  "msgFood =
     [CHR 0xD0, CHR 0x94, CHR 0xD0, CHR 0xBE, CHR 0xD1, CHR 0x81, CHR 0xD1, CHR 0x82, CHR 0xD0,
      CHR 0xB0, CHR 0xD0, CHR 0xB2, CHR 0xD0, CHR 0xBA, CHR 0xD0, CHR 0xB0, CHR '' '',
      CHR 0xD0, CHR 0xB3, CHR 0xD0, CHR 0xBE, CHR 0xD1, CHR 0x82, CHR 0xD0, CHR 0xBE, CHR 0xD0,
      CHR 0xB2, CHR 0xD0, CHR 0xBE, CHR 0xD0, CHR 0xB9, CHR '' '', CHR 0xD0, CHR 0xB5,
      CHR 0xD0, CHR 0xB4, CHR 0xD1, CHR 0x8B, CHR ''.'']"

definition serviceWords :: "string list" where
  "serviceWords =
     [[CHR 0xD1, CHR 0x83, CHR 0xD1, CHR 0x81, CHR 0xD0, CHR 0xBB, CHR 0xD1, CHR 0x83,
       CHR 0xD0, CHR 0xB3, CHR 0xD0, CHR 0xB8],
      [CHR 0xD0, CHR 0xB7, CHR 0xD0, CHR 0xB0, CHR 0xD0, CHR 0xBA, CHR 0xD0, CHR 0xB0,
       CHR 0xD0, CHR 0xB7, CHR 0xD0, CHR 0xB0, CHR 0xD1, CHR 0x82, CHR 0xD1, CHR 0x8C,
       CHR '' '', CHR 0xD1, CHR 0x83, CHR 0xD1, CHR 0x81, CHR 0xD0, CHR 0xBB, CHR 0xD1,
       CHR 0x83, CHR 0xD0, CHR 0xB3, CHR 0xD1, CHR 0x83],
      [CHR 0xD0, CHR 0xBF, CHR 0xD0, CHR 0xBE, CHR 0xD1, CHR 0x80, CHR 0xD1, CHR 0x82,
       CHR 0xD1, CHR 0x84, CHR 0xD0, CHR 0xBE, CHR 0xD0, CHR 0xBB, CHR 0xD0, CHR 0xB8,
       CHR 0xD0, CHR 0xBE],
      [CHR 0xD0, CHR 0xBD, CHR 0xD0, CHR 0xB0, CHR 0xD1, CHR 0x88, CHR 0xD0, CHR 0xB8,
       CHR '' '', CHR 0xD1, CHR 0x83, CHR 0xD1, CHR 0x81, CHR 0xD0, CHR 0xBB, CHR 0xD1,
       CHR 0x83, CHR 0xD0, CHR 0xB3, CHR 0xD0, CHR 0xB8]]"

definition msgServices :: string where
  "msgServices =
     [CHR 0xD0, CHR 0xA1, CHR 0xD0, CHR 0xB0, CHR 0xD0, CHR 0xB9, CHR 0xD1, CHR 0x82,
      CHR '' '', CHR 0xD0, CHR 0xBA, CHR 0xD0, CHR 0xBE, CHR 0xD0, CHR 0xBC, CHR 0xD0,
      CHR 0xBF, CHR 0xD0, CHR 0xB0, CHR 0xD0, CHR 0xBD, CHR 0xD0, CHR 0xB8, CHR 0xD0, CHR 0xB8,
      CHR 0xE2, CHR 0x80, CHR 0x91, CHR 0xD1, CHR 0x83, CHR 0xD1, CHR 0x81, CHR 0xD0, CHR 0xBB,
      CHR 0xD1, CHR 0x83, CHR 0xD0, CHR 0xB3, CHR 0xD0, CHR 0xBE, CHR 0xD0, CHR 0xB4, CHR 0xD0,
      CHR 0xB0, CHR 0xD1, CHR 0x82, CHR 0xD0, CHR 0xB5, CHR 0xD0, CHR 0xBB, CHR 0xD1, CHR 0x8F,
      CHR ''.'']"

definition summaryLabel :: string where
  "summaryLabel =
     [CHR 0xD0, CHR 0x9A, CHR 0xD1, CHR 0x80, CHR 0xD0, CHR 0xB0, CHR 0xD1, CHR 0x82, CHR 0xD0,
      CHR 0xBA, CHR 0xD0, CHR 0xBE, CHR 0xD0, CHR 0xB5, CHR '' '', CHR 0xD0, CHR 0xBE,
      CHR 0xD0, CHR 0xBF, CHR 0xD0, CHR 0xB8, CHR 0xD1, CHR 0x81, CHR 0xD0, CHR 0xB0, CHR 0xD0,
      CHR 0xBD, CHR 0xD0, CHR 0xB8, CHR 0xD0, CHR 0xB5, CHR '' '', CHR 0xD0, CHR 0xBF,
      CHR 0xD0, CHR 0xBE, CHR '' '', CHR 0xD1, CHR 0x82, CHR 0xD0, CHR 0xB5, CHR 0xD0,
      CHR 0xBA, CHR 0xD1, CHR 0x81, CHR 0xD1, CHR 0x82, CHR 0xD1, CHR 0x83, CHR '' '',
      CHR 0xD1, CHR 0x81, CHR 0xD0, CHR 0xB0, CHR 0xD0, CHR 0xB9, CHR 0xD1, CHR 0x82, CHR 0xD0,
      CHR 0xB0, CHR '':'', CHR '' '']"

definition terminatorChars :: string where
  "terminatorChars =
     [CHR ''.'', CHR ''!'', CHR ''?'', CHR 0xE2, CHR 0x80, CHR 0xA6]"

definition ellipsis :: string where
  "ellipsis =
     [CHR 0xE2, CHR 0x80, CHR 0xA6]"


fun hasAny :: "string \<Rightarrow> string list \<Rightarrow> bool" where
  "hasAny s [] = False"
| "hasAny s (k # ks) = (if Contains s k then True else hasAny s ks)"

definition isNoisySent :: "(nat \<Rightarrow> nat) \<Rightarrow> string \<Rightarrow> bool" where
  "isNoisySent tbl s =
     (let ss = ToLower tbl (TrimSpace s) in
      if ss = [] then True
      else if Contains ss ''{'' \<or> Contains ss ''}'' \<or> Contains ss ''widgets'' then True
      else if length ss < 30 \<or> length ss > 220 then True
      else False)"

text \<open>The candidate of the first-sentence step: \<open>end\<close> is the result of \<open>IndexAny\<close>.\<close>

definition firstCandidate :: "string \<Rightarrow> string" where
  "firstCandidate text =
     (let end = IndexAny text terminatorChars in
      if end > 0 then TrimSpace (slice text 0 (nat (end + 1))) else text)"

text \<open>
  In the words of the specification: the first sentence terminator of the raw text, as
  the byte offset and the code point of the first rune that is one of the four
  terminators.
\<close>

definition firstTerminator :: "string \<Rightarrow> (nat \<times> nat) option" where
  "firstTerminator text = find (\<lambda>x. isTerminator (snd x)) (rangeStr 0 text)"

text \<open>The last resort: white space collapsed, cut at 180 bytes.\<close>

definition lastResort :: "string \<Rightarrow> string" where
  "lastResort text =
     (let s = Join (Fields text) '' '' in
      if length s > 180 then slice s 0 180 @ ellipsis else s)"

definition heuristicSummarize :: "(nat \<Rightarrow> nat) \<Rightarrow> string \<Rightarrow> string" where
  "heuristicSummarize tbl text =
     (if text = [] then msgUndetermined
      else
        let l = ToLower tbl text in
        if hasAny l marketplaceWords \<and> hasAny l goodsWords then msgMarketplace
        else if hasAny l yandexMarketWords then msgYandexMarket
        else if hasAny l shopWords then msgShop
        else if hasAny l foodWords then msgFood
        else if hasAny l serviceWords then msgServices
        else
          let cand = firstCandidate text in
          if \<not> isNoisySent tbl cand then summaryLabel @ cand
          else
            (case find (\<lambda>s. \<not> isNoisySent tbl s) (splitSentences text) of
               Some s \<Rightarrow> summaryLabel @ s
             | None \<Rightarrow> summaryLabel @ lastResort text))"

section \<open>The text extractor\<close>

subsection \<open>Values of type float64\<close>

text \<open>
  The finite values of \<open>float64\<close> are rational numbers with a significand of 53 bits.
  A conversion to \<open>float64\<close>, a rounded constant and a division give the value nearest
  to the exact result, the one with the even significand when two are as near
  (IEEE 754 round-to-nearest-even). \<open>binexp x\<close> is the exponent \<open>e\<close> with
  \<open>2 powi e \<le> x < 2 powi (e + 1)\<close>. The exponent range of the format is not
  modelled: the quotients of two counts of runes are far inside it.
\<close>

definition roundHalfEven :: "rat \<Rightarrow> int" where
  "roundHalfEven x =
     (let f = \<lfloor>x\<rfloor>; d = x - of_int f in
      if d < 1 / 2 then f else if 1 / 2 < d then f + 1 else if even f then f else f + 1)"

definition binexp :: "rat \<Rightarrow> int" where
  "binexp x =
     (case quotient_of x of
        (p, q) \<Rightarrow> let e = bitlen p - bitlen q in if 2 powi e \<le> x then e else e - 1)"

definition f64 :: "rat \<Rightarrow> rat" where
  "f64 x =
     (if x = 0 then 0
      else
        let e = binexp \<bar>x\<bar> in
        sgn x * of_int (roundHalfEven (\<bar>x\<bar> * 2 powi (52 - e))) * 2 powi (e - 52))"

definition f64div :: "rat \<Rightarrow> rat \<Rightarrow> rat" where
  "f64div x y = f64 (x / y)"

subsection \<open>The noise filter\<close>

text \<open>The letters of the density rule: a to z, U+0430 to U+044F and U+0451.\<close>

definition isLetter :: "nat \<Rightarrow> bool" where
  "isLetter r = ((0x61 \<le> r \<and> r \<le> 0x7A) \<or> (0x430 \<le> r \<and> r \<le> 0x44F) \<or> r = 0x451)"

text \<open>The counting loop of \<open>isNoisy\<close> over the runes of the lowered fragment; the state is \<open>(non, letters)\<close>.\<close>

fun countLoop :: "(nat \<times> nat) list \<Rightarrow> nat \<times> nat \<Rightarrow> nat \<times> nat" where
  "countLoop [] (non, letters) = (non, letters)"
| "countLoop ((i, r) # rs) (non, letters) =
     (if isLetter r then countLoop rs (non, letters + 1)
      else if r \<noteq> 0x20 then countLoop rs (non + 1, letters)
      else countLoop rs (non, letters))"

definition isNoisy :: "(nat \<Rightarrow> nat) \<Rightarrow> string \<Rightarrow> bool" where
  "isNoisy tbl s =
     (let ls = ToLower tbl s in
      if Contains ls ''{'' \<and> Contains ls ''}'' then True
      else if Contains ls ''['' \<and> Contains ls '']'' then True
      else if Contains ls ''widgets'' \<or> Contains ls ''cookie'' \<or> Contains ls ''tracking'' then True
      else
        (case countLoop (rangeStr 0 ls) (0, 0) of
           (non, letters) \<Rightarrow>
             letters > 0 \<and> f64div (f64 (of_nat non)) (f64 (of_nat (letters + 1))) > f64 (7 / 10)))"

text \<open>
  In the words of the specification: the number of letters of a lowered fragment, and
  the number of its characters that are neither letters nor the space.
\<close>

definition letterCount :: "string \<Rightarrow> nat" where
  "letterCount ls = length (filter isLetter (map snd (rangeStr 0 ls)))"

definition nonLetterCount :: "string \<Rightarrow> nat" where
  "nonLetterCount ls = length (filter (\<lambda>r. \<not> isLetter r \<and> r \<noteq> 0x20) (map snd (rangeStr 0 ls)))"

definition clean :: "string \<Rightarrow> string" where
  "clean s = Join (Fields (TrimSpace s)) '' ''"

subsection \<open>The parsed document\<close>

text \<open>
  A node of the tree the HTML parser returns: its type, its data (the tag name of an
  element, the text of a text node), its attributes in order and its children in
  order. The parser itself is a library: \<open>parse\<close>, a parameter, gives the document node
  of a markup string, or nothing when reading fails.
\<close>

datatype nodeType = TextNode | DocumentNode | ElementNode | CommentNode | DoctypeNode

datatype node = Node nodeType string "(string \<times> string) list" "node list"

text \<open>\<open>Selection.Text\<close> on one node: the data of the text nodes below it and of itself, in order.\<close>

fun nodeText :: "node \<Rightarrow> string" where
  "nodeText (Node ty d as cs) = (if ty = TextNode then d else []) @ concat (map nodeText cs)"

definition selText :: "node list \<Rightarrow> string" where
  "selText ns = concat (map nodeText ns)"

text \<open>The nodes below a node in document order, and \<open>Find\<close> with a selector given as a predicate.\<close>

fun descendants :: "node \<Rightarrow> node list" where
  "descendants (Node ty d as cs) = concat (map (\<lambda>c. c # descendants c) cs)"

definition Find :: "(node \<Rightarrow> bool) \<Rightarrow> node \<Rightarrow> node list" where
  "Find sel doc = filter sel (descendants doc)"

text \<open>\<open>doc.Find(sel).Remove()\<close>: every matching node leaves its parent, with all below it.\<close>

fun Remove :: "(node \<Rightarrow> bool) \<Rightarrow> node \<Rightarrow> node" where
  "Remove sel (Node ty d as cs) = Node ty d as (map (Remove sel) (filter (\<lambda>c. \<not> sel c) cs))"

text \<open>The selectors of the program: a group of tag names, and \<open>meta[name="description"]\<close>.\<close>

fun hasTag :: "string list \<Rightarrow> node \<Rightarrow> bool" where
  "hasTag tags (Node ty d as cs) = (ty = ElementNode \<and> d \<in> set tags)"

fun isMetaDescription :: "node \<Rightarrow> bool" where
  "isMetaDescription (Node ty d as cs) =
     (ty = ElementNode \<and> d = ''meta'' \<and> (''name'', ''description'') \<in> set as)"

definition noiseTags :: "string list" where
  "noiseTags = [''script'', ''style'', ''noscript'', ''nav'', ''header'', ''footer'', ''template'',
     ''svg'', ''iframe'', ''aside'']"

definition blockTags :: "string list" where
  "blockTags = [''h1'', ''h2'', ''h3'', ''p'', ''li'']"

text \<open>\<open>Selection.Attr\<close> on one node: the value of the first attribute of that name.\<close>

fun Attr :: "node \<Rightarrow> string \<Rightarrow> string option" where
  "Attr (Node ty d as cs) name = map_of as name"

subsection \<open>extractVisibleText\<close>

text \<open>The loop over the description tags: \<open>metaDesc\<close> is assigned at every tag that has a \<open>content\<close>.\<close>

fun metaLoop :: "node list \<Rightarrow> string \<Rightarrow> string" where
  "metaLoop [] metaDesc = metaDesc"
| "metaLoop (n # ns) metaDesc =
     (case Attr n ''content'' of
        Some v \<Rightarrow> metaLoop ns (TrimSpace v)
      | None \<Rightarrow> metaLoop ns metaDesc)"

text \<open>The loop over the headings, paragraphs and list items, appending to \<open>parts\<close>.\<close>

fun blockLoop :: "(nat \<Rightarrow> nat) \<Rightarrow> node list \<Rightarrow> string list \<Rightarrow> string list" where
  "blockLoop tbl [] parts = parts"
| "blockLoop tbl (n # ns) parts =
     (let t = clean (nodeText n) in
      if t \<noteq> [] \<and> \<not> isNoisy tbl t \<and> length t \<ge> 10 then blockLoop tbl ns (parts @ [t])
      else blockLoop tbl ns parts)"

text \<open>The fragments of a parsed document joined with single spaces, before the cut.\<close>

definition joinedFragments :: "(nat \<Rightarrow> nat) \<Rightarrow> node \<Rightarrow> string" where
  "joinedFragments tbl doc0 =
     (let doc = Remove (hasTag noiseTags) doc0;
          title = TrimSpace (selText (take 1 (Find (hasTag [''title'']) doc)));
          metaDesc = metaLoop (Find isMetaDescription doc) [];
          parts1 = (if title \<noteq> [] \<and> \<not> isNoisy tbl title then [clean title] else []);
          parts2 = (if metaDesc \<noteq> [] \<and> \<not> isNoisy tbl metaDesc then parts1 @ [clean metaDesc]
                    else parts1);
          parts = blockLoop tbl (Find (hasTag blockTags) doc) parts2
      in Join parts '' '')"

definition extractVisibleText :: "(string \<Rightarrow> node option) \<Rightarrow> (nat \<Rightarrow> nat) \<Rightarrow> string \<Rightarrow> string" where
  "extractVisibleText parse tbl html =
     (case parse html of
        None \<Rightarrow> []
      | Some doc \<Rightarrow>
          let text = joinedFragments tbl doc in
          if length text > 20000 then slice text 0 20000 else text)"

text \<open>
  The part of \<open>extractVisibleText\<close> after the loop over the description tags, as a
  function of the tree without its noise and of the value the loop leaves in \<open>metaDesc\<close>.
\<close>

definition fragmentsWithMeta :: "(nat \<Rightarrow> nat) \<Rightarrow> node \<Rightarrow> string \<Rightarrow> string" where
  "fragmentsWithMeta tbl doc metaDesc =
     (let title = TrimSpace (selText (take 1 (Find (hasTag [''title'']) doc)));
          parts1 = (if title \<noteq> [] \<and> \<not> isNoisy tbl title then [clean title] else []);
          parts2 = (if metaDesc \<noteq> [] \<and> \<not> isNoisy tbl metaDesc then parts1 @ [clean metaDesc]
                    else parts1);
          parts = blockLoop tbl (Find (hasTag blockTags) doc) parts2
      in Join parts '' '')"

section \<open>The collaborators and the handler\<close>

text \<open>A Go error, by its message.\<close>

datatype error = Error string

subsection \<open>fetchHTML\<close>

text \<open>
  A response body is a reader: the bytes it delivers and then the end of the stream, or
  the error it fails with after them. \<open>io.LimitReader\<close> ends the stream once \<open>n\<close>
  bytes are read and never reads past them; \<open>io.ReadAll\<close> gives the bytes of a stream
  that ends, and the error of one that fails.
\<close>

datatype reader = Reader string "error option"

fun LimitReader :: "reader \<Rightarrow> nat \<Rightarrow> reader" where
  "LimitReader (Reader bs e) n = (if n \<le> length bs then Reader (take n bs) None else Reader bs e)"

fun ReadAll :: "reader \<Rightarrow> error + string" where
  "ReadAll (Reader bs None) = Inr bs"
| "ReadAll (Reader bs (Some e)) = Inl e"

record response =
  StatusCode :: int
  Status :: string
  Body :: reader

text \<open>
  The network: \<open>newRequest\<close> is \<open>http.NewRequestWithContext\<close> (the error of a target it
  refuses), \<open>doRequest\<close> is \<open>httpClient.Do\<close> under the deadline of the context (the
  response, or the error of the transport, a timeout among them).
\<close>

definition fetchHTML ::
  "(string \<Rightarrow> error option) \<Rightarrow> (string \<Rightarrow> error + response) \<Rightarrow> string \<Rightarrow> error + string" where
  "fetchHTML newRequest doRequest target =
     (case newRequest target of
        Some err \<Rightarrow> Inl err
      | None \<Rightarrow>
          (case doRequest target of
             Inl err \<Rightarrow> Inl err
           | Inr res \<Rightarrow>
               if StatusCode res < 200 \<or> StatusCode res \<ge> 300
               then Inl (Error (''non-2xx status: '' @ Status res))
               else
                 (case ReadAll (LimitReader (Body res) (2 * 2 ^ 20)) of
                    Inl err \<Rightarrow> Inl err
                  | Inr b \<Rightarrow> Inr b)))"

subsection \<open>summarizeWithAI\<close>

record aiReply =
  replySummary :: string
  replyKeywords :: "string list"
  replyNegativeKeywords :: "string list"

text \<open>
  \<open>chat\<close> is the call of the chat-completion service under its deadline, as a function of
  the page text put at the end of the fixed instruction: the message contents of the
  choices it returns, or its error (a timeout among them). \<open>unmarshal\<close> is
  \<open>json.Unmarshal\<close> into the three fields, nothing when the text is not valid JSON.
\<close>

definition summarizeWithAI ::
  "(string \<Rightarrow> error + string list) \<Rightarrow> (string \<Rightarrow> aiReply option) \<Rightarrow> string
    \<Rightarrow> error + (string \<times> string list \<times> string list)" where
  "summarizeWithAI chat unmarshal text0 =
     (let text = (if length text0 > 4000 then slice text0 0 4000 else text0) in
      case chat text of
        Inl err \<Rightarrow> Inl err
      | Inr choices \<Rightarrow>
          (case choices of
             [] \<Rightarrow> Inl (Error ''no choices from AI'')
           | c # _ \<Rightarrow>
               let raw = TrimSpace c in
               if raw = [] then Inl (Error ''empty AI response'')
               else
                 (case unmarshal raw of
                    None \<Rightarrow> Inr (raw, [], [])
                  | Some tmp \<Rightarrow>
                      Inr (TrimSpace (replySummary tmp), replyKeywords tmp,
                           replyNegativeKeywords tmp))))"

subsection \<open>fallbackSummary\<close>






text \<open>What the handler reads of a parsed URL: two fields and the results of two methods.\<close>

record url =
  Scheme :: string
  Host :: string
  Hostname :: string
  urlString :: string




subsection \<open>classifyHandler\<close>

record classifyRequest =
  URL :: string



text \<open>
  Everything the handler takes from outside the program: the flag \<open>useAI\<close> read at start,
  the JSON decoder of the request body, the URL parser, the network, the HTML parser,
  the case table, the chat service and the JSON decoder of its answer.
\<close>

record world =
  useAI :: bool
  decodeRequest :: "string \<Rightarrow> classifyRequest option"
  parseRequestURI :: "string \<Rightarrow> url option"
  newRequest :: "string \<Rightarrow> error option"
  doRequest :: "string \<Rightarrow> error + response"
  parseHTML :: "string \<Rightarrow> node option"
  caseTable :: "nat \<Rightarrow> nat"
  chat :: "string \<Rightarrow> error + string list"
  unmarshal :: "string \<Rightarrow> aiReply option"





section \<open>Concrete inputs\<close>








definition acceptTarget :: "string \<Rightarrow> error option" where
  "acceptTarget target = None"






text \<open>A response whose body is one byte longer than 2 MiB.\<close>

definition oversizeBody :: string where
  "oversizeBody = replicate 2097153 (CHR ''a'')"

definition oversizeResponse :: response where
  "oversizeResponse = \<lparr>StatusCode = 200, Status = ''200 OK'', Body = Reader oversizeBody None\<rparr>"

definition serveOversize :: "string \<Rightarrow> error + response" where
  "serveOversize target = Inr oversizeResponse"

text \<open>The same body on a connection that breaks after its last byte.\<close>

definition brokenOversizeResponse :: response where
  "brokenOversizeResponse =
     \<lparr>StatusCode = 200, Status = ''200 OK'',
      Body = Reader oversizeBody (Some (Error ''connection reset by peer''))\<rparr>"

definition serveBrokenOversize :: "string \<Rightarrow> error + response" where
  "serveBrokenOversize target = Inr brokenOversizeResponse"

text \<open>
  Two pages with several description tags; the last tag of each has no \<open>content\<close>
  attribute.
\<close>

definition metaFirst :: node where
  "metaFirst = Node ElementNode ''meta'' [(''name'', ''description''), (''content'', ''first words'')] []"

definition metaSecond :: node where
  "metaSecond = Node ElementNode ''meta'' [(''name'', ''description''), (''content'', ''second words'')] []"

definition metaBare :: node where
  "metaBare = Node ElementNode ''meta'' [(''name'', ''description'')] []"

definition twoMetaDoc :: node where
  "twoMetaDoc =
     Node DocumentNode [] []
       [Node ElementNode ''html'' []
          [Node ElementNode ''head'' [] [metaFirst, metaBare],
           Node ElementNode ''body'' [] []]]"

definition twoMetaMarkup :: string where
  "twoMetaMarkup =
     ''<meta name=\"description\" content=\"first words\"><meta name=\"description\">''"

definition threeMetaDoc :: node where
  "threeMetaDoc =
     Node DocumentNode [] []
       [Node ElementNode ''html'' []
          [Node ElementNode ''head'' [] [metaFirst, metaSecond, metaBare],
           Node ElementNode ''body'' [] []]]"

definition threeMetaMarkup :: string where
  "threeMetaMarkup =
     ''<meta name=\"description\" content=\"first words\"><meta name=\"description\" content=\"second words\"><meta name=\"description\">''"

definition metaParse :: "string \<Rightarrow> node option" where
  "metaParse html =
     (if html = twoMetaMarkup then Some twoMetaDoc
      else if html = threeMetaMarkup then Some threeMetaDoc
      else None)"

text \<open>
  Candidate sentences: one of 19 Cyrillic characters and spaces, 35 bytes long, and one
  that holds the word \<open>cookie\<close>.
\<close>

definition shortCyrillic :: string where
  "shortCyrillic =
     [CHR 0xD0, CHR 0xBF, CHR 0xD1, CHR 0x80, CHR 0xD0, CHR 0xB8, CHR 0xD0, CHR 0xB2, CHR 0xD0,
      CHR 0xB5, CHR 0xD1, CHR 0x82, CHR '' '', CHR 0xD1, CHR 0x8D, CHR 0xD1, CHR 0x82,
      CHR 0xD0, CHR 0xBE, CHR '' '', CHR 0xD0, CHR 0xBD, CHR 0xD0, CHR 0xB0, CHR 0xD1,
      CHR 0x88, CHR '' '', CHR 0xD1, CHR 0x81, CHR 0xD0, CHR 0xB0, CHR 0xD0, CHR 0xB9,
      CHR 0xD1, CHR 0x82]"

definition cookieSentence :: string where
  "cookieSentence = ''we use cookie files on this whole website.''"

text \<open>
  The first sentence \<open>splitSentences\<close> returns for a text of 27 letters and spaces that
  ends with an ellipsis: the text with the first byte of the ellipsis.
\<close>

definition cutSentence :: string where
  "cutSentence = ''we bake fresh bread at home'' @ [CHR 0xE2]"

section \<open>Basic facts about the string functions\<close>

lemma TrimSpace_Nil: "TrimSpace [] = []"
proof -
  have "spaceWidth [] = 0" by (simp add: spaceWidth_def)
  then have l: "trimLeft [] = []" by (subst trimLeft.simps) simp
  have "spaceWidthLast [] = 0"
    by (simp add: spaceWidthLast_def spaceRuneOfWidth_def lastBytes_def)
  then have "trimRight [] = []" by (subst trimRight.simps) simp
  with l show ?thesis by (simp add: TrimSpace_def)
qed

lemma TrimSpace_nonempty: "TrimSpace s \<noteq> [] \<Longrightarrow> s \<noteq> []"
  using TrimSpace_Nil by auto


text \<open>The equations that evaluate the string functions on a concrete string.\<close>

lemmas ev = TrimSpace_def trimLeft.simps trimRight.simps spaceWidth_def spaceWidthLast_def
  spaceRuneOfWidth_def lastBytes_def isSpace_def Let_def cont_def accept3_def accept4_def RuneError_def
  rangeStr.simps fieldsFrom.simps Fields_def clean_def ToLower_def toLowerRune_def encodeRune_def
  char_of_eq_iff








section \<open>Facts about decoding and trimming\<close>

text \<open>
  The bytes a sentence can end with after the slice \<open>s[start : i+1]\<close> at a terminator:
  \<open>.\<close>, \<open>!\<close>, \<open>?\<close>, and \<open>0xE2\<close>, the first byte of the ellipsis. None of them is the
  last byte of a white-space rune.
\<close>

definition termByte :: "char \<Rightarrow> bool" where
  "termByte c = (of_char c = (0x2E::nat) \<or> of_char c = (0x21::nat) \<or> of_char c = (0x3F::nat)
     \<or> of_char c = (0xE2::nat))"

lemma isSpace_RuneError: "\<not> isSpace RuneError"
  by (simp add: isSpace_def RuneError_def)

lemma decodeRune_Cons_disj:
  fixes c0 :: char
  shows "(of_char c0 < (0x80::nat) \<and> decodeRune (c0 # cs) = (of_char c0, 1))
   \<or> decodeRune (c0 # cs) = (RuneError, 1)
   \<or> (\<exists>c1 rest. cs = c1 # rest \<and> (0xC2::nat) \<le> of_char c0 \<and> of_char c0 \<le> (0xDF::nat)
        \<and> cont (of_char c1)
        \<and> decodeRune (c0 # cs) = ((of_char c0 - 0xC0) * 64 + (of_char c1 - 0x80), 2))
   \<or> (\<exists>c1 c2 rest. cs = c1 # c2 # rest \<and> (0xE0::nat) \<le> of_char c0 \<and> of_char c0 \<le> (0xEF::nat)
        \<and> accept3 (of_char c0) (of_char c1) \<and> cont (of_char c2)
        \<and> decodeRune (c0 # cs)
           = ((of_char c0 - 0xE0) * 4096 + (of_char c1 - 0x80) * 64 + (of_char c2 - 0x80), 3))
   \<or> (\<exists>c1 c2 c3 rest. cs = c1 # c2 # c3 # rest \<and> (0xF0::nat) \<le> of_char c0
        \<and> of_char c0 \<le> (0xF4::nat)
        \<and> accept4 (of_char c0) (of_char c1) \<and> cont (of_char c2) \<and> cont (of_char c3)
        \<and> decodeRune (c0 # cs)
           = ((of_char c0 - 0xF0) * 262144 + (of_char c1 - 0x80) * 4096
              + (of_char c2 - 0x80) * 64 + (of_char c3 - 0x80), 4))"
  by (simp add: Let_def split: list.split)

lemma decodeRune_Cons_cases [case_names ascii err two three four]:
  fixes c0 :: char
  obtains "of_char c0 < (0x80::nat)" and "decodeRune (c0 # cs) = (of_char c0, 1)"
  | "decodeRune (c0 # cs) = (RuneError, 1)"
  | c1 rest where "cs = c1 # rest" and "(0xC2::nat) \<le> of_char c0" and "of_char c0 \<le> (0xDF::nat)"
      and "cont (of_char c1)"
      and "decodeRune (c0 # cs) = ((of_char c0 - 0xC0) * 64 + (of_char c1 - 0x80), 2)"
  | c1 c2 rest where "cs = c1 # c2 # rest" and "(0xE0::nat) \<le> of_char c0" and "of_char c0 \<le> (0xEF::nat)"
      and "accept3 (of_char c0) (of_char c1)" and "cont (of_char c2)"
      and "decodeRune (c0 # cs)
           = ((of_char c0 - 0xE0) * 4096 + (of_char c1 - 0x80) * 64 + (of_char c2 - 0x80), 3)"
  | c1 c2 c3 rest where "cs = c1 # c2 # c3 # rest" and "(0xF0::nat) \<le> of_char c0"
      and "of_char c0 \<le> (0xF4::nat)"
      and "accept4 (of_char c0) (of_char c1)" and "cont (of_char c2)" and "cont (of_char c3)"
      and "decodeRune (c0 # cs)
           = ((of_char c0 - 0xF0) * 262144 + (of_char c1 - 0x80) * 4096
              + (of_char c2 - 0x80) * 64 + (of_char c3 - 0x80), 4)"
  using decodeRune_Cons_disj [of c0 cs] by blast

lemma decodeRune_space_last:
  assumes "isSpace (fst (decodeRune (c0 # cs)))"
  shows "\<not> termByte ((c0 # cs) ! (snd (decodeRune (c0 # cs)) - 1))"
proof (cases rule: decodeRune_Cons_cases [where ?c0.0 = c0 and cs = cs])
  case ascii
  with assms show ?thesis by (auto simp: isSpace_def termByte_def)
next
  case err
  with assms show ?thesis by (simp add: isSpace_RuneError)
next
  case (two c1 rest)
  then show ?thesis by (auto simp: termByte_def cont_def)
next
  case (three c1 c2 rest)
  then show ?thesis by (auto simp: termByte_def cont_def)
next
  case (four c1 c2 c3 rest)
  then show ?thesis by (auto simp: termByte_def cont_def)
qed

lemma not_term_RuneError: "\<not> isTerminator RuneError"
  by (simp add: isTerminator_def RuneError_def)

lemma decodeRune_terminator_head:
  assumes "isTerminator (fst (decodeRune (c0 # cs)))"
  shows "termByte c0"
proof (cases rule: decodeRune_Cons_cases [where ?c0.0 = c0 and cs = cs])
  case ascii
  with assms show ?thesis by (auto simp: isTerminator_def termByte_def)
next
  case err
  with assms show ?thesis by (simp add: not_term_RuneError)
next
  case (two c1 rest)
  with assms have False by (simp add: isTerminator_def cont_def) arith
  then show ?thesis ..
next
  case (three c1 c2 rest)
  with assms have "of_char c0 = (0xE2::nat)"
    by (simp add: isTerminator_def cont_def accept3_def split: if_splits) arith+
  then show ?thesis by (simp add: termByte_def)
next
  case (four c1 c2 c3 rest)
  with assms have False
    by (simp add: isTerminator_def cont_def accept4_def split: if_splits) arith+
  then show ?thesis ..
qed

lemma decodeRune_space_append:
  assumes "isSpace (fst (decodeRune p))"
  shows "decodeRune (p @ x) = decodeRune p"
proof (cases p)
  case Nil
  with assms show ?thesis by (simp add: isSpace_RuneError)
next
  case (Cons c0 cs)
  show ?thesis
  proof (cases rule: decodeRune_Cons_cases [where ?c0.0 = c0 and cs = cs])
    case ascii
    then show ?thesis using Cons by (simp add: Let_def)
  next
    case err
    with assms Cons show ?thesis by (simp add: isSpace_RuneError)
  next
    case (two c1 rest)
    then show ?thesis using Cons by (simp add: Let_def)
  next
    case (three c1 c2 rest)
    then show ?thesis using Cons by (simp add: Let_def)
  next
    case (four c1 c2 c3 rest)
    then show ?thesis using Cons by (simp add: Let_def)
  qed
qed

lemma spaceWidth_pos:
  assumes "spaceWidth s \<noteq> 0"
  shows "s \<noteq> []" and "isSpace (fst (decodeRune s))" and "spaceWidth s = snd (decodeRune s)"
    and "spaceWidth s \<le> length s"
proof -
  from assms show sp: "isSpace (fst (decodeRune s))" and eq: "spaceWidth s = snd (decodeRune s)"
    by (simp_all add: spaceWidth_def split: if_splits)
  from sp show ne: "s \<noteq> []" by (auto simp: isSpace_RuneError)
  from ne eq show "spaceWidth s \<le> length s" using decodeRune_width [of s] by simp
qed

lemma space_rune_last_byte:
  assumes "s \<noteq> []" and "isSpace (fst (decodeRune s))" and "snd (decodeRune s) = length s"
  shows "\<not> termByte (last s)"
proof -
  obtain c0 cs where s: "s = c0 # cs" using assms(1) by (cases s) auto
  have "\<not> termByte (s ! (snd (decodeRune s) - 1))"
    using decodeRune_space_last [of c0 cs] assms(2) s by simp
  with assms(1,3) show ?thesis by (simp add: last_conv_nth)
qed

lemma trimLeft_keeps_last:
  "s \<noteq> [] \<Longrightarrow> termByte (last s) \<Longrightarrow> trimLeft s \<noteq> [] \<and> last (trimLeft s) = last s"
proof (induction s rule: trimLeft.induct)
  case (1 s)
  show ?case
  proof (cases "spaceWidth s = 0")
    case True
    with "1.prems" show ?thesis by (subst (1 2) trimLeft.simps) simp
  next
    case False
    note w = spaceWidth_pos [OF False]
    have "spaceWidth s \<noteq> length s"
      using space_rune_last_byte [of s] w "1.prems" by auto
    with w(4) have lt: "spaceWidth s < length s" by simp
    then have ne: "drop (spaceWidth s) s \<noteq> []" by simp
    have la: "last (drop (spaceWidth s) s) = last s" using lt by simp
    have "trimLeft (drop (spaceWidth s) s) \<noteq> []
        \<and> last (trimLeft (drop (spaceWidth s) s)) = last (drop (spaceWidth s) s)"
      using "1.IH" [OF False ne] la "1.prems"(2) by simp
    with False la show ?thesis by (subst (1 2) trimLeft.simps) simp
  qed
qed

lemma spaceRuneOfWidth_last:
  assumes "spaceRuneOfWidth k (lastBytes k s)" and "0 < k"
  shows "s \<noteq> [] \<and> \<not> termByte (last s)"
proof -
  let ?w = "lastBytes k s"
  from assms have len: "length ?w = k" and sp: "isSpace (fst (decodeRune ?w))"
    and wd: "snd (decodeRune ?w) = length ?w"
    by (simp_all add: spaceRuneOfWidth_def)
  from len assms(2) have ne: "?w \<noteq> []" by auto
  then have sne: "s \<noteq> []" by (auto simp: lastBytes_def)
  have "last ?w = last s" using ne by (simp add: lastBytes_def)
  with space_rune_last_byte [OF ne sp wd] sne show ?thesis by simp
qed

lemma spaceWidthLast_term:
  assumes "termByte (last s)"
  shows "spaceWidthLast s = 0"
  using assms spaceRuneOfWidth_last [of 1 s] spaceRuneOfWidth_last [of 2 s]
    spaceRuneOfWidth_last [of 3 s]
  by (auto simp: spaceWidthLast_def)

lemma trimRight_fixed: "spaceWidthLast s = 0 \<Longrightarrow> trimRight s = s"
  by (subst trimRight.simps) simp

lemma trimLeft_fixed: "spaceWidth s = 0 \<Longrightarrow> trimLeft s = s"
  by (subst trimLeft.simps) simp

lemma TrimSpace_keeps_term:
  assumes "s \<noteq> []" and "termByte (last s)"
  shows "TrimSpace s \<noteq> []"
proof -
  from trimLeft_keeps_last [OF assms] have a: "trimLeft s \<noteq> []" and b: "termByte (last (trimLeft s))"
    using assms(2) by simp_all
  from b have "trimRight (trimLeft s) = trimLeft s"
    by (simp add: spaceWidthLast_term trimRight_fixed)
  with a show ?thesis by (simp add: TrimSpace_def)
qed

lemma trimLeft_no_space: "spaceWidth (trimLeft s) = 0"
proof (induction s rule: trimLeft.induct)
  case (1 s)
  show ?case
  proof (cases "spaceWidth s = 0")
    case True
    then show ?thesis by (simp add: trimLeft_fixed)
  next
    case False
    with "1.IH" show ?thesis by (subst trimLeft.simps) simp
  qed
qed

lemma trimRight_idem: "spaceWidthLast (trimRight s) = 0"
proof (induction s rule: trimRight.induct)
  case (1 s)
  show ?case
  proof (cases "spaceWidthLast s = 0")
    case True
    then show ?thesis by (simp add: trimRight_fixed)
  next
    case False
    with "1.IH" show ?thesis by (subst trimRight.simps) simp
  qed
qed

lemma spaceWidth_take:
  assumes "spaceWidth s = 0"
  shows "spaceWidth (take k s) = 0"
proof (rule ccontr)
  assume a: "spaceWidth (take k s) \<noteq> 0"
  note w = spaceWidth_pos [OF a]
  have "decodeRune (take k s @ drop k s) = decodeRune (take k s)"
    using decodeRune_space_append [OF w(2)] .
  then have "decodeRune s = decodeRune (take k s)" by simp
  with w(2,3) a have "spaceWidth s \<noteq> 0" by (simp add: spaceWidth_def)
  with assms show False by simp
qed

lemma trimRight_no_leading_space:
  "spaceWidth s = 0 \<Longrightarrow> spaceWidth (trimRight s) = 0"
proof (induction s rule: trimRight.induct)
  case (1 s)
  show ?case
  proof (cases "spaceWidthLast s = 0")
    case True
    with "1.prems" show ?thesis by (simp add: trimRight_fixed)
  next
    case False
    have "spaceWidth (take (length s - spaceWidthLast s) s) = 0"
      using spaceWidth_take [OF "1.prems"] .
    from "1.IH" [OF False this] False show ?thesis by (subst trimRight.simps) simp
  qed
qed

lemma TrimSpace_idem: "TrimSpace (TrimSpace s) = TrimSpace s"
proof -
  let ?u = "trimRight (trimLeft s)"
  have "spaceWidth ?u = 0" using trimRight_no_leading_space [OF trimLeft_no_space] .
  then have "trimLeft ?u = ?u" by (rule trimLeft_fixed)
  moreover have "trimRight ?u = ?u" using trimRight_idem [of "trimLeft s"] by (rule trimRight_fixed)
  ultimately show ?thesis by (simp add: TrimSpace_def)
qed

section \<open>Properties of the classifier\<close>

lemma literals_nonempty:
  "summaryLabel \<noteq> []" "msgUndetermined \<noteq> []" "msgMarketplace \<noteq> []" "msgYandexMarket \<noteq> []"
  "msgShop \<noteq> []" "msgFood \<noteq> []" "msgServices \<noteq> []"
  by (simp_all add: summaryLabel_def msgUndetermined_def msgMarketplace_def msgYandexMarket_def
      msgShop_def msgFood_def msgServices_def)

text \<open>
  C1. \<open>heuristicSummarize\<close> is total and its result is never the empty string, whatever
  the text (the empty and the blank text included) and whatever the case table.
\<close>

theorem heuristicSummarize_nonempty: "heuristicSummarize tbl text \<noteq> []"
  unfolding heuristicSummarize_def Let_def
  by (simp add: literals_nonempty split: option.split)

section \<open>Properties of the extractor and of the fetch\<close>

text \<open>
  C3. Whatever the markup, the parser and the case table, the result of
  \<open>extractVisibleText\<close> has at most 20000 bytes, and it is the first 20000 bytes of the
  joined fragments (the empty string when parsing fails): the cut is made at that byte
  offset, wherever it falls.
\<close>

theorem extractVisibleText_bounded:
  "length (extractVisibleText parse tbl html) \<le> 20000 \<and>
   extractVisibleText parse tbl html
     = take 20000 (case parse html of None \<Rightarrow> [] | Some doc \<Rightarrow> joinedFragments tbl doc)"
  by (simp add: extractVisibleText_def slice_def Let_def split: option.split)

text \<open>
  C4, as the code has it. When the request is accepted and sent and the status is
  within 200 to 299, \<open>fetchHTML\<close> never fails for the size of the body. A body of at
  least 2 MiB (2097152 bytes) gives success with its first 2 MiB, whatever follows them
  in the stream, an error included: a body beyond the cap is cut, not refused. A
  shorter body gives success with the whole body when the stream ends, and the error of
  the stream when it fails.
\<close>

theorem fetchHTML_truncates:
  assumes "newReq target = None" and "doReq target = Inr res"
    and "200 \<le> StatusCode res" and "StatusCode res < 300"
    and "Body res = Reader bs e"
  shows "fetchHTML newReq doReq target =
     (if 2 * 2 ^ 20 \<le> length bs then Inr (take (2 * 2 ^ 20) bs)
      else case e of None \<Rightarrow> Inr bs | Some err \<Rightarrow> Inl err)"
  using assms by (cases e) (simp_all add: fetchHTML_def)

theorem fetchHTML_truncates_witness:
  "acceptTarget ''http://example.com/'' = None
   \<and> serveBrokenOversize ''http://example.com/'' = Inr brokenOversizeResponse
   \<and> 200 \<le> StatusCode brokenOversizeResponse \<and> StatusCode brokenOversizeResponse < 300
   \<and> Body brokenOversizeResponse = Reader oversizeBody (Some (Error ''connection reset by peer''))
   \<and> 2 * 2 ^ 20 < length oversizeBody
   \<and> fetchHTML acceptTarget serveBrokenOversize ''http://example.com/''
       = Inr (replicate 2097152 (CHR ''a''))"
  using fetchHTML_truncates [of acceptTarget "''http://example.com/''" serveBrokenOversize
      brokenOversizeResponse oversizeBody "Some (Error ''connection reset by peer'')"]
  by (simp add: acceptTarget_def serveBrokenOversize_def brokenOversizeResponse_def oversizeBody_def)

text \<open>
  C4 as stated fails: a response with status 200 and a body of 2097153 bytes, one more
  than the cap, is fetched with success, and the result is its first 2097152 bytes.
\<close>

theorem fetchHTML_oversize_succeeds:
  "2 * 2 ^ 20 < length oversizeBody
   \<and> fetchHTML acceptTarget serveOversize ''http://example.com/'' = Inr (replicate 2097152 (CHR ''a''))"
  by (simp add: fetchHTML_def acceptTarget_def serveOversize_def oversizeResponse_def oversizeBody_def)

section \<open>Properties of the handler\<close>





lemma summarizeWithAI_failures:
  "ask (if length text > 4000 then slice text 0 4000 else text) = Inl err
     \<Longrightarrow> summarizeWithAI ask unm text = Inl err"
  "ask (if length text > 4000 then slice text 0 4000 else text) = Inr []
     \<Longrightarrow> summarizeWithAI ask unm text = Inl (Error ''no choices from AI'')"
  "ask (if length text > 4000 then slice text 0 4000 else text) = Inr (c # cs) \<Longrightarrow> TrimSpace c = []
     \<Longrightarrow> summarizeWithAI ask unm text = Inl (Error ''empty AI response'')"
  by (simp_all add: summarizeWithAI_def Let_def)







section \<open>Properties of the sentence splitter\<close>

lemma splitLoop_keeps_nonempty:
  "out \<noteq> [] \<Longrightarrow> fst (splitLoop s rs out start) \<noteq> []"
proof (induction rs arbitrary: out start)
  case Nil
  then show ?case by simp
next
  case (Cons a rs)
  obtain i r where a: "a = (i, r)" by (cases a)
  show ?case
  proof (cases "isTerminator r")
    case True
    let ?part = "TrimSpace (slice s start (i + 1))"
    let ?out = "if ?part \<noteq> [] then out @ [?part] else out"
    have ne: "?out \<noteq> []" using Cons.prems by simp
    have "fst (splitLoop s rs ?out (i + 1)) \<noteq> []" by (rule Cons.IH [OF ne])
    moreover have "splitLoop s (a # rs) out start = splitLoop s rs ?out (i + 1)"
      using True a by (simp add: Let_def)
    ultimately show ?thesis by simp
  next
    case False
    with Cons.IH [OF Cons.prems] a show ?thesis by simp
  qed
qed

lemma splitLoop_no_terminator:
  "\<forall>x\<in>set rs. \<not> isTerminator (snd x) \<Longrightarrow> splitLoop s rs out start = (out, start)"
  by (induction rs arbitrary: out start) auto

lemma slice_last:
  assumes "start \<le> j" and "j < length s"
  shows "slice s start (j + 1) \<noteq> [] \<and> last (slice s start (j + 1)) = s ! j"
proof -
  let ?d = "drop start s"
  have len: "j + 1 - start \<le> length ?d" and pos: "0 < j + 1 - start" using assms by simp_all
  have ne: "take (j + 1 - start) ?d \<noteq> []" using assms by simp
  have "last (take (j + 1 - start) ?d) = ?d ! (j + 1 - start - 1)"
    using len pos by (simp add: last_conv_nth min_def)
  also have "\<dots> = s ! j" using assms by simp
  finally show ?thesis using ne by (simp add: slice_def)
qed

lemma splitLoop_terminator_nonempty:
  "start \<le> j \<Longrightarrow> t = drop j s \<Longrightarrow> \<exists>x\<in>set (rangeStr j t). isTerminator (snd x)
     \<Longrightarrow> fst (splitLoop s (rangeStr j t) out start) \<noteq> []"
proof (induction j t arbitrary: out start rule: rangeStr.induct)
  case (1 j t)
  from "1.prems"(3) have ne: "t \<noteq> []" by (subst (asm) rangeStr.simps) (auto split: if_splits)
  let ?r = "fst (decodeRune t)" and ?n = "snd (decodeRune t)"
  have unf: "rangeStr j t = (j, ?r) # rangeStr (j + ?n) (drop ?n t)"
    using ne by (subst rangeStr.simps) simp
  have jlt: "j < length s" using ne "1.prems"(2) by auto
  show ?case
  proof (cases "isTerminator ?r")
    case True
    obtain c0 cs where t: "t = c0 # cs" using ne by (cases t) auto
    have "termByte c0" using decodeRune_terminator_head [of c0 cs] True t by simp
    moreover have "c0 = s ! j" using t "1.prems"(2) jlt by (metis hd_drop_conv_nth list.sel(1))
    ultimately have "termByte (last (slice s start (j + 1)))" and "slice s start (j + 1) \<noteq> []"
      using slice_last [OF "1.prems"(1) jlt] by simp_all
    then have "TrimSpace (slice s start (j + 1)) \<noteq> []" using TrimSpace_keeps_term by blast
    then show ?thesis using True unf splitLoop_keeps_nonempty by (simp add: Let_def)
  next
    case False
    with "1.prems"(3) unf have ex: "\<exists>x\<in>set (rangeStr (j + ?n) (drop ?n t)). isTerminator (snd x)"
      by auto
    have "fst (splitLoop s (rangeStr (j + ?n) (drop ?n t)) out start) \<noteq> []"
      using "1.IH" [OF ne _ _ ex, of start out] "1.prems"(1,2) by (simp add: add.commute)
    with False unf show ?thesis by simp
  qed
qed

lemma splitLoop_trimmed:
  "\<forall>x\<in>set out. x \<noteq> [] \<and> TrimSpace x = x
     \<Longrightarrow> \<forall>x\<in>set (fst (splitLoop s rs out start)). x \<noteq> [] \<and> TrimSpace x = x"
proof (induction rs arbitrary: out start)
  case Nil
  then show ?case by simp
next
  case (Cons a rs)
  obtain i r where a: "a = (i, r)" by (cases a)
  show ?case
  proof (cases "isTerminator r \<and> TrimSpace (slice s start (i + 1)) \<noteq> []")
    case True
    let ?out = "out @ [TrimSpace (slice s start (i + 1))]"
    have inv: "\<forall>x\<in>set ?out. x \<noteq> [] \<and> TrimSpace x = x"
      using Cons.prems True by (simp add: TrimSpace_idem)
    have "\<forall>x\<in>set (fst (splitLoop s rs ?out (i + 1))). x \<noteq> [] \<and> TrimSpace x = x"
      by (rule Cons.IH [OF inv])
    moreover have "splitLoop s (a # rs) out start = splitLoop s rs ?out (i + 1)"
      using True a by (simp add: Let_def)
    ultimately show ?thesis by simp
  next
    case False
    have "splitLoop s (a # rs) out start = splitLoop s rs out start
        \<or> splitLoop s (a # rs) out start = splitLoop s rs out (i + 1)"
      using False a by (auto simp: Let_def)
    moreover have "\<forall>x\<in>set (fst (splitLoop s rs out start)). x \<noteq> [] \<and> TrimSpace x = x"
      by (rule Cons.IH [OF Cons.prems])
    moreover have "\<forall>x\<in>set (fst (splitLoop s rs out (i + 1))). x \<noteq> [] \<and> TrimSpace x = x"
      by (rule Cons.IH [OF Cons.prems])
    ultimately show ?thesis by auto
  qed
qed

lemma sample_split: "splitSentences ''Hi. Go on! '' = [''Hi.'', ''Go on!'']"
  by (simp add: splitSentences_def slice_def isTerminator_def ev)

lemma blank_split: "splitSentences '' '' = []"
  by (simp add: splitSentences_def slice_def isTerminator_def ev)

lemma sample_split_trim: "TrimSpace ''Hi. Go on! '' = ''Hi. Go on!''"
  by (simp add: ev)

lemma splitSentences_some:
  assumes "TrimSpace s \<noteq> []"
  shows "splitSentences s \<noteq> []"
proof (cases "\<exists>x\<in>set (rangeStr 0 s). isTerminator (snd x)")
  case True
  have "fst (splitLoop s (rangeStr 0 s) [] 0) \<noteq> []"
    using splitLoop_terminator_nonempty [of 0 0 s s] True by simp
  then show ?thesis by (auto simp: splitSentences_def Let_def split: prod.splits)
next
  case False
  then have "splitLoop s (rangeStr 0 s) [] 0 = ([], 0)" using splitLoop_no_terminator by blast
  moreover have "s \<noteq> []" using assms TrimSpace_nonempty by blast
  ultimately show ?thesis using assms by (simp add: splitSentences_def Let_def)
qed

lemma spaceWidthLast_pos:
  assumes "spaceWidthLast t \<noteq> 0"
  shows "0 < spaceWidthLast t \<and> spaceRuneOfWidth (spaceWidthLast t) (lastBytes (spaceWidthLast t) t)"
  using assms by (auto simp: spaceWidthLast_def split: if_splits)

lemma trimRight_nonempty:
  "t \<noteq> [] \<Longrightarrow> spaceWidth t = 0 \<Longrightarrow> trimRight t \<noteq> []"
proof (induction t rule: trimRight.induct)
  case (1 t)
  show ?case
  proof (cases "spaceWidthLast t = 0")
    case True
    with "1.prems" show ?thesis by (simp add: trimRight_fixed)
  next
    case False
    let ?k = "spaceWidthLast t"
    let ?t' = "take (length t - ?k) t"
    from spaceWidthLast_pos [OF False] have k: "0 < ?k" and sp: "spaceRuneOfWidth ?k (lastBytes ?k t)"
      by simp_all
    have ne: "?t' \<noteq> []"
    proof
      assume "?t' = []"
      then have "length t \<le> ?k" using "1.prems"(1) by simp
      then have "lastBytes ?k t = t" by (simp add: lastBytes_def)
      with sp have "isSpace (fst (decodeRune t))" and "snd (decodeRune t) = ?k"
        by (simp_all add: spaceRuneOfWidth_def)
      with k have "spaceWidth t \<noteq> 0" by (simp add: spaceWidth_def)
      with "1.prems"(2) show False by simp
    qed
    have "spaceWidth ?t' = 0" using spaceWidth_take [OF "1.prems"(2)] .
    from "1.IH" [OF False ne this] False show ?thesis by (subst trimRight.simps) simp
  qed
qed

lemma TrimSpace_empty_trimLeft:
  assumes "TrimSpace s = []"
  shows "trimLeft s = []"
  using assms trimRight_nonempty [of "trimLeft s"] trimLeft_no_space [of s]
  by (auto simp: TrimSpace_def)

lemma trimLeft_empty_all_space:
  "trimLeft s = [] \<Longrightarrow> \<forall>x\<in>set (rangeStr j s). isSpace (snd x)"
proof (induction s arbitrary: j rule: trimLeft.induct)
  case (1 s)
  show ?case
  proof (cases "s = []")
    case True
    then show ?thesis by (subst rangeStr.simps) simp
  next
    case False
    have w: "spaceWidth s \<noteq> 0"
    proof
      assume "spaceWidth s = 0"
      then have "trimLeft s = s" by (rule trimLeft_fixed)
      with "1.prems" False show False by simp
    qed
    note p = spaceWidth_pos [OF w]
    have "trimLeft (drop (spaceWidth s) s) = []"
      using "1.prems" w by (subst (asm) trimLeft.simps) simp
    from "1.IH" [OF w this, of "j + snd (decodeRune s)"]
    have "\<forall>x\<in>set (rangeStr (j + snd (decodeRune s)) (drop (snd (decodeRune s)) s)). isSpace (snd x)"
      using p(3) by simp
    with p(2) False show ?thesis by (subst rangeStr.simps) simp
  qed
qed

lemma space_not_terminator: "isSpace r \<Longrightarrow> \<not> isTerminator r"
  by (auto simp: isSpace_def isTerminator_def)

lemma splitSentences_blank:
  assumes "TrimSpace s = []"
  shows "splitSentences s = []"
proof -
  have "\<forall>x\<in>set (rangeStr 0 s). \<not> isTerminator (snd x)"
    using trimLeft_empty_all_space [OF TrimSpace_empty_trimLeft [OF assms], of 0] space_not_terminator
    by blast
  then have "splitLoop s (rangeStr 0 s) [] 0 = ([], 0)" by (rule splitLoop_no_terminator)
  then show ?thesis using assms by (simp add: splitSentences_def Let_def)
qed

text \<open>
  C5, as the code has it. A string gives at least one sentence exactly when it is not
  empty after trimming white space: a string that is not blank gives a sentence, a
  string of white space alone gives none.
\<close>

theorem splitSentences_nonblank:
  "(splitSentences s \<noteq> []) = (TrimSpace s \<noteq> [])"
  using splitSentences_some [of s] splitSentences_blank [of s] by blast

theorem splitSentences_nonblank_witness:
  "TrimSpace ''Hi. Go on! '' \<noteq> [] \<and> splitSentences ''Hi. Go on! '' \<noteq> []"
  using splitSentences_nonblank [of "''Hi. Go on! ''"] sample_split_trim by simp

text \<open>
  C5 as stated fails: the string of one space is not empty, and it has no sentence.
\<close>

theorem splitSentences_blank_empty:
  "'' '' \<noteq> [] \<and> splitSentences '' '' = []"
  using blank_split by simp

text \<open>
  C10. Every sentence \<open>splitSentences\<close> returns is non-empty and is its own trim: it has
  no white space at either end.
\<close>

theorem splitSentences_trimmed:
  "\<forall>x\<in>set (splitSentences s). x \<noteq> [] \<and> TrimSpace x = x"
proof -
  obtain out start where l: "splitLoop s (rangeStr 0 s) [] 0 = (out, start)" by (cases "splitLoop s (rangeStr 0 s) [] 0")
  have "\<forall>x\<in>set (fst (splitLoop s (rangeStr 0 s) [] 0)). x \<noteq> [] \<and> TrimSpace x = x"
    by (rule splitLoop_trimmed) simp
  with l have "\<forall>x\<in>set out. x \<noteq> [] \<and> TrimSpace x = x" by simp
  with l show ?thesis by (auto simp: splitSentences_def Let_def TrimSpace_idem)
qed

theorem splitSentences_trimmed_witness:
  "splitSentences ''Hi. Go on! '' = [''Hi.'', ''Go on!'']
   \<and> TrimSpace ''Hi.'' = ''Hi.'' \<and> TrimSpace ''Go on!'' = ''Go on!''"
  using splitSentences_trimmed [of "''Hi. Go on! ''"] sample_split by simp

section \<open>The description tags\<close>

lemma joinedFragments_meta:
  "joinedFragments tbl doc =
     fragmentsWithMeta tbl (Remove (hasTag noiseTags) doc)
       (metaLoop (Find isMetaDescription (Remove (hasTag noiseTags) doc)) [])"
  by (simp add: joinedFragments_def fragmentsWithMeta_def Let_def)

lemma metaLoop_no_content:
  "\<forall>n\<in>set ns. Attr n ''content'' = None \<Longrightarrow> metaLoop ns acc = acc"
  by (induction ns arbitrary: acc) auto

lemma metaLoop_last_content:
  "Attr m ''content'' = Some v \<Longrightarrow> \<forall>n\<in>set ns. Attr n ''content'' = None
     \<Longrightarrow> metaLoop (ms @ m # ns) acc = TrimSpace v"
  by (induction ms arbitrary: acc) (auto simp: metaLoop_no_content split: option.split)

lemma f64_seven_tenths_pos: "0 < f64 (7 / 10)"
  by code_simp

lemma no_nonletters_ratio: "\<not> f64div (f64 (of_nat 0)) y > f64 (7 / 10)"
  using f64_seven_tenths_pos by (simp add: f64div_def f64_def)

lemma first_words_not_noisy: "\<not> isNoisy cyrillicLower ''first words''"
proof -
  have l: "ToLower cyrillicLower ''first words'' = ''first words''" by (simp add: ev)
  have c: "countLoop (rangeStr 0 ''first words'') (0, 0) = (0, 10)" by (simp add: ev isLetter_def)
  show ?thesis unfolding isNoisy_def l Let_def c using no_nonletters_ratio by simp
qed

lemma second_words_not_noisy: "\<not> isNoisy cyrillicLower ''second words''"
proof -
  have l: "ToLower cyrillicLower ''second words'' = ''second words''" by (simp add: ev)
  have c: "countLoop (rangeStr 0 ''second words'') (0, 0) = (0, 11)" by (simp add: ev isLetter_def)
  show ?thesis unfolding isNoisy_def l Let_def c using no_nonletters_ratio by simp
qed

lemma words_trim_clean:
  "TrimSpace ''first words'' = ''first words''" "clean ''first words'' = ''first words''"
  "TrimSpace ''second words'' = ''second words''" "clean ''second words'' = ''second words''"
  by (simp_all add: ev)

lemma twoMeta_find:
  "Find isMetaDescription (Remove (hasTag noiseTags) twoMetaDoc) = [metaFirst, metaBare]"
  by (simp add: twoMetaDoc_def Find_def noiseTags_def metaFirst_def metaBare_def)

lemma threeMeta_find:
  "Find isMetaDescription (Remove (hasTag noiseTags) threeMetaDoc) = [metaFirst] @ metaSecond # [metaBare]"
  by (simp add: threeMetaDoc_def Find_def noiseTags_def metaFirst_def metaSecond_def metaBare_def)

lemma meta_fragments:
  "fragmentsWithMeta cyrillicLower (Remove (hasTag noiseTags) threeMetaDoc) ''second words'' = ''second words''"
  "fragmentsWithMeta cyrillicLower (Remove (hasTag noiseTags) twoMetaDoc) ''first words'' = ''first words''"
  by (simp_all add: fragmentsWithMeta_def threeMetaDoc_def twoMetaDoc_def Find_def noiseTags_def
      blockTags_def selText_def metaFirst_def metaSecond_def metaBare_def TrimSpace_Nil
      first_words_not_noisy second_words_not_noisy words_trim_clean)

text \<open>
  C8, as the code has it. Among the description tags left after the noise is removed,
  the last one that has a \<open>content\<close> attribute decides: the text is built from its
  trimmed value alone, whatever the tags before it hold; the tags after it have no
  \<open>content\<close> and are passed over.
\<close>

theorem last_content_wins:
  assumes "parse html = Some doc"
    and "Find isMetaDescription (Remove (hasTag noiseTags) doc) = ms @ m # ns"
    and "Attr m ''content'' = Some v"
    and "\<forall>n\<in>set ns. Attr n ''content'' = None"
  shows "extractVisibleText parse tbl html
     = take 20000 (fragmentsWithMeta tbl (Remove (hasTag noiseTags) doc) (TrimSpace v))"
  using assms metaLoop_last_content [of m v ns ms "[]"]
  by (simp add: extractVisibleText_def joinedFragments_meta slice_def Let_def)

theorem last_content_wins_witness:
  "metaParse threeMetaMarkup = Some threeMetaDoc
   \<and> Find isMetaDescription (Remove (hasTag noiseTags) threeMetaDoc) = [metaFirst] @ metaSecond # [metaBare]
   \<and> Attr metaSecond ''content'' = Some ''second words''
   \<and> Attr metaBare ''content'' = None
   \<and> extractVisibleText metaParse cyrillicLower threeMetaMarkup = ''second words''"
  using last_content_wins [of metaParse threeMetaMarkup threeMetaDoc "[metaFirst]" metaSecond
      "[metaBare]" "''second words''" cyrillicLower]
    threeMeta_find meta_fragments(1) words_trim_clean
  by (simp add: metaParse_def metaSecond_def metaBare_def twoMetaMarkup_def threeMetaMarkup_def)

text \<open>
  C8 as stated fails: of two description tags, the first with the content
  \<open>first words\<close> and the final one with no \<open>content\<close> attribute, the final tag does not
  win: the text keeps the content of the first.
\<close>

theorem final_tag_without_content_loses:
  "Find isMetaDescription (Remove (hasTag noiseTags) twoMetaDoc) = [metaFirst, metaBare]
   \<and> Attr metaFirst ''content'' = Some ''first words''
   \<and> Attr metaBare ''content'' = None
   \<and> extractVisibleText metaParse cyrillicLower twoMetaMarkup = ''first words''"
proof -
  have "metaLoop [metaFirst, metaBare] [] = ''first words''"
    by (simp add: metaFirst_def metaBare_def words_trim_clean)
  then have "joinedFragments cyrillicLower twoMetaDoc = ''first words''"
    by (simp add: joinedFragments_meta twoMeta_find meta_fragments(2))
  then have "extractVisibleText metaParse cyrillicLower twoMetaMarkup = ''first words''"
    by (simp add: extractVisibleText_def metaParse_def)
  then show ?thesis using twoMeta_find by (simp add: metaFirst_def metaBare_def)
qed

section \<open>The first-sentence candidate\<close>

lemma terminatorChars_runes: "map snd (rangeStr 0 terminatorChars) = [0x2E, 0x21, 0x3F, 0x2026]"
  by (simp add: terminatorChars_def ev)

lemma firstIndexIn_find:
  "firstIndexIn [0x2E, 0x21, 0x3F, 0x2026] xs
     = (case find (\<lambda>x. isTerminator (snd x)) xs of None \<Rightarrow> -1 | Some (i, r) \<Rightarrow> int i)"
  by (induction xs) (auto simp: isTerminator_def)

lemma IndexAny_firstTerminator:
  "IndexAny text terminatorChars
     = (case firstTerminator text of None \<Rightarrow> -1 | Some (i, r) \<Rightarrow> int i)"
  by (simp add: IndexAny_def firstTerminator_def terminatorChars_runes firstIndexIn_find)

lemma rangeStr_member:
  "(i, r) \<in> set (rangeStr j t) \<Longrightarrow> j \<le> i \<and> i < j + length t \<and> r = fst (decodeRune (drop (i - j) t))"
proof (induction j t rule: rangeStr.induct)
  case (1 j t)
  from "1.prems" have ne: "t \<noteq> []" by (subst (asm) rangeStr.simps) (auto split: if_splits)
  let ?n = "snd (decodeRune t)"
  have n: "1 \<le> ?n" "?n \<le> length t" using decodeRune_width [OF ne] by simp_all
  from "1.prems" ne have "(i, r) = (j, fst (decodeRune t)) \<or> (i, r) \<in> set (rangeStr (j + ?n) (drop ?n t))"
    by (subst (asm) rangeStr.simps) auto
  then show ?case
  proof
    assume "(i, r) = (j, fst (decodeRune t))"
    then show ?thesis using ne by auto
  next
    assume a: "(i, r) \<in> set (rangeStr (j + ?n) (drop ?n t))"
    from "1.IH" [OF ne a] have b: "j + ?n \<le> i" "i < j + ?n + length (drop ?n t)"
      "r = fst (decodeRune (drop (i - (j + ?n)) (drop ?n t)))" by simp_all
    have "drop (i - (j + ?n)) (drop ?n t) = drop (i - j) t" using b(1) by (simp add: add.commute)
    with b n show ?thesis by auto
  qed
qed

lemma ascii_rune_byte:
  assumes "(i, r) \<in> set (rangeStr 0 text)" and "r < 0x80"
  shows "i < length text \<and> text ! i = char_of r"
proof -
  from rangeStr_member [OF assms(1)] have lt: "i < length text"
    and r: "r = fst (decodeRune (drop i text))" by simp_all
  obtain cs where d: "drop i text = text ! i # cs" using lt by (metis Cons_nth_drop_Suc)
  have "of_char (text ! i) = r"
  proof (cases rule: decodeRune_Cons_cases [where ?c0.0 = "text ! i" and cs = cs])
    case ascii
    with r d show ?thesis by simp
  next
    case err
    with r d assms(2) show ?thesis by (simp add: RuneError_def)
  next
    case (two c1 rest)
    with r d assms(2) have False by (simp add: cont_def) arith
    then show ?thesis ..
  next
    case (three c1 c2 rest)
    with r d assms(2) have False by (simp add: cont_def accept3_def split: if_splits) arith+
    then show ?thesis ..
  next
    case (four c1 c2 c3 rest)
    with r d assms(2) have False by (simp add: cont_def accept4_def split: if_splits) arith+
    then show ?thesis ..
  qed
  then have "char_of r = text ! i" by (metis char_of_char)
  with lt show ?thesis by simp
qed

lemma find_Some:
  "find P xs = Some x \<Longrightarrow> x \<in> set xs \<and> P x"
  by (induction xs) (auto split: if_splits)

text \<open>
  C6, as the code has it. When the first terminator of the text is \<open>.\<close>, \<open>!\<close> or \<open>?\<close>: at
  a byte offset greater than 0 the candidate is the trimmed prefix of the text up to
  and including that terminator; at offset 0 (the text begins with the terminator) the
  candidate is the whole text, untrimmed.
\<close>

theorem firstCandidate_prefix:
  assumes "firstTerminator text = Some (i, r)" and "r \<noteq> 0x2026"
  shows "firstCandidate text = (if 0 < i then TrimSpace (take i text @ [char_of r]) else text)"
proof -
  from assms(1) have mem: "(i, r) \<in> set (rangeStr 0 text)" and tm: "isTerminator r"
    using find_Some [of "\<lambda>x. isTerminator (snd x)" "rangeStr 0 text" "(i, r)"]
    by (simp_all add: firstTerminator_def)
  from tm assms(2) have "r < 0x80" by (auto simp: isTerminator_def)
  from ascii_rune_byte [OF mem this] have lt: "i < length text" and c: "text ! i = char_of r"
    by simp_all
  have "take (i + 1) text = take i text @ [char_of r]"
    using lt c by (simp add: take_Suc_conv_app_nth)
  moreover have "nat (int i + 1) = i + 1" by simp
  ultimately have "slice text 0 (nat (int i + 1)) = take i text @ [char_of r]"
    by (simp add: slice_def)
  then show ?thesis
    using assms(1) by (simp add: firstCandidate_def IndexAny_firstTerminator Let_def)
qed

lemma sample_firstTerminator: "firstTerminator ''Hi. Go on! '' = Some (2, 0x2E)"
  by (simp add: firstTerminator_def isTerminator_def ev)

theorem firstCandidate_prefix_witness:
  "firstTerminator ''Hi. Go on! '' = Some (2, 0x2E) \<and> firstCandidate ''Hi. Go on! '' = ''Hi.''"
proof -
  have "TrimSpace ''Hi.'' = ''Hi.''" by (simp add: ev)
  moreover have "char_of (0x2E::nat) = CHR ''.''" by (simp add: char_of_eq_iff)
  ultimately show ?thesis
    using firstCandidate_prefix [of "''Hi. Go on! ''" 2 "0x2E"] sample_firstTerminator
    by simp
qed

text \<open>
  C6 as stated fails: the text \<open>.NET tools\<close> has its first terminator at offset 0; the
  prefix up to and including it is \<open>.\<close>, and the candidate is the whole text.
\<close>

theorem firstCandidate_leading_terminator:
  "firstTerminator ''.NET tools'' = Some (0, 0x2E)
   \<and> TrimSpace (take 1 ''.NET tools'') = ''.''
   \<and> firstCandidate ''.NET tools'' = ''.NET tools''"
  by (simp add: firstTerminator_def firstCandidate_def IndexAny_def terminatorChars_def
      isTerminator_def slice_def ev)

text \<open>
  When the first terminator is the ellipsis, three bytes long, the slice
  \<open>text[:end+1]\<close> ends after the first of its bytes.
\<close>

lemma firstCandidate_ellipsis:
  "firstCandidate (''ab'' @ ellipsis @ ''cd'') = ''ab'' @ [CHR 0xE2]"
  by (simp add: firstCandidate_def IndexAny_def terminatorChars_def ellipsis_def
      isTerminator_def slice_def ev)

section \<open>The noisy-sentence test\<close>

lemma encodeRune_nonempty: "encodeRune r \<noteq> []"
  by (simp add: encodeRune_def)

lemma rangeStr_Nil_iff: "rangeStr j s = [] \<longleftrightarrow> s = []"
  by (subst rangeStr.simps) simp

lemma rangeStr_Nil: "rangeStr j [] = []"
  by (subst rangeStr.simps) simp

lemma ToLower_Nil_iff: "ToLower tbl s = [] \<longleftrightarrow> s = []"
proof
  assume a: "ToLower tbl s = []"
  show "s = []"
  proof (rule ccontr)
    assume "s \<noteq> []"
    then obtain x xs where "rangeStr 0 s = x # xs" using rangeStr_Nil_iff [of 0 s] by (cases "rangeStr 0 s") auto
    with a show False by (simp add: ToLower_def encodeRune_nonempty split: prod.splits)
  qed
next
  assume "s = []"
  then show "ToLower tbl s = []" by (simp add: ToLower_def rangeStr_Nil)
qed

text \<open>
  C7, as the code has it. The test rejects a candidate exactly when it is empty after
  trimming, or its trimmed and lowered form holds \<open>{\<close>, \<open>}\<close> or the word \<open>widgets\<close>, or
  that form is shorter than 30 bytes or longer than 220 bytes; every other candidate
  is accepted.
\<close>

theorem isNoisySent_rule:
  "isNoisySent tbl s =
     (let ss = ToLower tbl (TrimSpace s) in
      TrimSpace s = [] \<or> Contains ss ''{'' \<or> Contains ss ''}'' \<or> Contains ss ''widgets''
      \<or> length ss < 30 \<or> 220 < length ss)"
  by (simp add: isNoisySent_def Let_def ToLower_Nil_iff)

lemma shortCyrillic_trim: "TrimSpace shortCyrillic = shortCyrillic"
  unfolding shortCyrillic_def by (simp add: ev)

lemma shortCyrillic_lower: "ToLower cyrillicLower shortCyrillic = shortCyrillic"
  unfolding shortCyrillic_def by (simp add: ev cyrillicLower_def)

lemma shortCyrillic_count: "runeCount shortCyrillic = 19"
  unfolding shortCyrillic_def by (simp add: runeCount_def ev)

lemma shortCyrillic_accepted: "\<not> isNoisySent cyrillicLower shortCyrillic"
  unfolding isNoisySent_def shortCyrillic_trim shortCyrillic_lower Let_def
  by (simp add: shortCyrillic_def)

lemma cookie_trim: "TrimSpace cookieSentence = cookieSentence"
  unfolding cookieSentence_def by (simp add: ev)

lemma cookie_lower: "ToLower cyrillicLower cookieSentence = cookieSentence"
  unfolding cookieSentence_def by (simp add: ev)

lemma cookie_accepted: "\<not> isNoisySent cyrillicLower cookieSentence"
  unfolding isNoisySent_def cookie_trim cookie_lower Let_def
  by (simp add: cookieSentence_def)

lemma cutSentence_trim: "TrimSpace cutSentence = cutSentence"
  unfolding cutSentence_def by (simp add: ev)

lemma cutSentence_lower:
  "ToLower cyrillicLower cutSentence = ''we bake fresh bread at home'' @ [CHR 0xEF, CHR 0xBF, CHR 0xBD]"
  unfolding cutSentence_def by (simp add: ev cyrillicLower_def)

lemma cutSentence_accepted: "\<not> isNoisySent cyrillicLower cutSentence"
  unfolding isNoisySent_def cutSentence_trim cutSentence_lower Let_def
  by simp

lemma cutSentence_split:
  "splitSentences (''we bake fresh bread at home'' @ ellipsis) = [cutSentence, [CHR 0x80, CHR 0xA6]]"
  by (simp add: splitSentences_def slice_def isTerminator_def ellipsis_def cutSentence_def ev)

text \<open>
  C7 as stated fails. A candidate of 28 bytes after trimming, fewer than 30 however they
  are counted, is accepted: its last byte is no valid character, lowering writes three
  bytes for it, and the 30 bytes of the lowered form are counted. A candidate of 19
  characters is accepted, since its 35 bytes are counted. A candidate that holds the
  word \<open>cookie\<close> of the boilerplate vocabulary is accepted.
\<close>

theorem isNoisySent_counts_bytes:
  "length (TrimSpace cutSentence) = 28
   \<and> \<not> isNoisySent cyrillicLower cutSentence
   \<and> runeCount (TrimSpace shortCyrillic) = 19
   \<and> \<not> isNoisySent cyrillicLower shortCyrillic
   \<and> Contains cookieSentence ''cookie''
   \<and> \<not> isNoisySent cyrillicLower cookieSentence"
  using shortCyrillic_count shortCyrillic_accepted cookie_accepted cutSentence_accepted
  by (simp add: shortCyrillic_trim cutSentence_trim) (simp add: cutSentence_def cookieSentence_def)

section \<open>The arithmetic of float64 in the density rule\<close>

lemma roundHalfEven_le:
  assumes "x < of_int n + 1 / 2"
  shows "roundHalfEven x \<le> n"
proof -
  have fl: "of_int \<lfloor>x\<rfloor> \<le> x" "x < of_int \<lfloor>x\<rfloor> + 1" by linarith+
  have "\<lfloor>x\<rfloor> \<le> n" using assms fl by linarith
  moreover have "\<lfloor>x\<rfloor> = n \<Longrightarrow> x - of_int \<lfloor>x\<rfloor> < 1 / 2" using assms by simp
  ultimately show ?thesis
    by (cases "\<lfloor>x\<rfloor> = n") (auto simp: roundHalfEven_def Let_def)
qed

lemma roundHalfEven_ge:
  assumes "of_int n - 1 / 2 < x"
  shows "n \<le> roundHalfEven x"
proof -
  have fl: "of_int \<lfloor>x\<rfloor> \<le> x" "x < of_int \<lfloor>x\<rfloor> + 1" by linarith+
  have "n - 1 \<le> \<lfloor>x\<rfloor>" using assms fl by linarith
  moreover have "\<lfloor>x\<rfloor> = n - 1 \<Longrightarrow> 1 / 2 < x - of_int \<lfloor>x\<rfloor>" using assms by simp
  ultimately show ?thesis
    by (cases "\<lfloor>x\<rfloor> = n - 1") (auto simp: roundHalfEven_def Let_def)
qed

lemma roundHalfEven_of_int: "roundHalfEven (of_int n) = n"
  by (simp add: roundHalfEven_def)

lemma binexp_bounds:
  assumes "0 < x"
  shows "2 powi (binexp x) \<le> x \<and> x < 2 powi (binexp x + 1)"
proof -
  obtain p q where pq: "quotient_of x = (p, q)" by (cases "quotient_of x")
  have q: "0 < q" using pq by (rule quotient_of_denom_pos)
  have x: "x = of_int p / of_int q" using pq by (rule quotient_of_div)
  have p: "0 < p" using assms q x by (simp add: zero_less_divide_iff)
  let ?bp = "bitlen p" and ?bq = "bitlen q"
  have bp: "1 \<le> ?bp" "1 \<le> ?bq" using p q by (auto simp: bitlen_alt_def)
  have Bp: "(2::rat) ^ nat (?bp - 1) \<le> of_int p" "of_int p < (2::rat) ^ nat ?bp"
    using bitlen_bounds [OF p]
    by (metis of_int_le_iff of_int_numeral of_int_power, metis of_int_less_iff of_int_numeral of_int_power)
  have Bq: "(2::rat) ^ nat (?bq - 1) \<le> of_int q" "of_int q < (2::rat) ^ nat ?bq"
    using bitlen_bounds [OF q]
    by (metis of_int_le_iff of_int_numeral of_int_power, metis of_int_less_iff of_int_numeral of_int_power)
  have P: "(2::rat) powi (?bp - 1) \<le> of_int p" "of_int p < (2::rat) powi ?bp"
    using Bp bp by (simp_all add: power_int_def)
  have Q: "(2::rat) powi (?bq - 1) \<le> of_int q" "of_int q < (2::rat) powi ?bq"
    using Bq bp by (simp_all add: power_int_def)
  have qpos: "(0::rat) < of_int q" using q by simp
  have up: "x < 2 powi (?bp - ?bq + 1)"
  proof -
    have "of_int p < (2::rat) powi ?bp" by (rule P(2))
    also have "\<dots> = 2 powi (?bp - ?bq + 1) * 2 powi (?bq - 1)"
      by (simp add: power_int_add [symmetric])
    also have "\<dots> \<le> 2 powi (?bp - ?bq + 1) * of_int q"
      using Q(1) by (simp add: mult_left_mono)
    finally show ?thesis using qpos by (simp add: x pos_divide_less_eq)
  qed
  have lo: "2 powi (?bp - ?bq - 1) \<le> x"
  proof -
    have "2 powi (?bp - ?bq - 1) * of_int q \<le> 2 powi (?bp - ?bq - 1) * (2::rat) powi ?bq"
      using Q(2) by (simp add: mult_left_mono)
    also have "\<dots> = 2 powi (?bp - 1)" by (simp add: power_int_add [symmetric])
    also have "\<dots> \<le> of_int p" by (rule P(1))
    finally show ?thesis using qpos by (simp add: x pos_le_divide_eq)
  qed
  show ?thesis
  proof (cases "2 powi (?bp - ?bq) \<le> x")
    case True
    then have "binexp x = ?bp - ?bq" by (simp add: binexp_def pq Let_def)
    with True up show ?thesis by simp
  next
    case False
    then have "binexp x = ?bp - ?bq - 1" by (simp add: binexp_def pq Let_def)
    with False lo show ?thesis by simp
  qed
qed

lemma two_powi_less_imp:
  assumes "(2::rat) powi m < 2 powi n"
  shows "m < n"
proof (rule ccontr)
  assume "\<not> m < n"
  then have "n \<le> m" by simp
  then have "(2::rat) powi n \<le> 2 powi m" by (rule power_int_increasing) simp
  with assms show False by simp
qed

lemma binexp_unique:
  assumes "2 powi e \<le> x" and "x < 2 powi (e + 1)"
  shows "binexp x = e"
proof -
  have "(0::rat) < 2 powi e" by simp
  with assms(1) have pos: "0 < x" by linarith
  from binexp_bounds [OF pos] have b: "2 powi (binexp x) \<le> x" "x < 2 powi (binexp x + 1)" by simp_all
  have "(2::rat) powi e < 2 powi (binexp x + 1)" using assms(1) b(2) by simp
  then have 1: "e < binexp x + 1" by (rule two_powi_less_imp)
  have "(2::rat) powi (binexp x) < 2 powi (e + 1)" using assms(2) b(1) by simp
  then have 2: "binexp x < e + 1" by (rule two_powi_less_imp)
  from 1 2 show ?thesis by simp
qed

lemma f64_pos_eq:
  assumes "0 < x"
  shows "f64 x = of_int (roundHalfEven (x * 2 powi (52 - binexp x))) * 2 powi (binexp x - 52)"
  using assms by (simp add: f64_def Let_def)

lemma f64_of_nat:
  assumes "n < 2 ^ 53"
  shows "f64 (of_nat n) = of_nat n"
proof (cases "n = 0")
  case True
  then show ?thesis by (simp add: f64_def)
next
  case False
  let ?x = "of_nat n :: rat"
  let ?e = "binexp ?x"
  have pos: "0 < ?x" using False by simp
  from binexp_bounds [OF pos] have b: "2 powi ?e \<le> ?x" "?x < 2 powi (?e + 1)" by simp_all
  have "?x < 2 powi 53" using assms by (metis of_nat_less_iff of_nat_numeral of_nat_power power_int_numeral)
  with b(1) have "(2::rat) powi ?e < 2 powi 53" by linarith
  then have e53: "?e < 53" by (rule two_powi_less_imp)
  define k where "k = nat (52 - ?e)"
  have k: "(2::rat) powi (52 - ?e) = 2 ^ k" using e53 by (simp add: k_def power_int_def)
  have "?x * 2 powi (52 - ?e) = of_int (int n * 2 ^ k)" by (simp add: k)
  then have "roundHalfEven (?x * 2 powi (52 - ?e)) = int n * 2 ^ k"
    by (simp only: roundHalfEven_of_int)
  then have "f64 ?x = of_int (int n * 2 ^ k) * 2 powi (?e - 52)"
    using f64_pos_eq [OF pos] by simp
  also have "\<dots> = ?x * (2 powi (52 - ?e) * 2 powi (?e - 52))" by (simp add: k)
  also have "2 powi (52 - ?e) * (2::rat) powi (?e - 52) = 1" by (simp add: power_int_add [symmetric])
  finally show ?thesis by simp
qed

lemma f64_ge_one:
  assumes "1 \<le> x"
  shows "1 \<le> f64 x"
proof -
  let ?e = "binexp x"
  have pos: "0 < x" using assms by simp
  from binexp_bounds [OF pos] have b: "2 powi ?e \<le> x" "x < 2 powi (?e + 1)" by simp_all
  have "(2::rat) powi 0 < 2 powi (?e + 1)" using assms b(2) by simp
  then have e0: "0 \<le> ?e" using two_powi_less_imp [of 0 "?e + 1"] by simp
  have "(2::rat) powi ?e * 2 powi (52 - ?e) \<le> x * 2 powi (52 - ?e)"
    using b(1) by (simp add: mult_right_mono)
  then have "(2::rat) ^ 52 \<le> x * 2 powi (52 - ?e)" by (simp add: power_int_add [symmetric])
  then have "of_int (2 ^ 52) - 1 / 2 < x * 2 powi (52 - ?e)" by simp
  then have "2 ^ 52 \<le> roundHalfEven (x * 2 powi (52 - ?e))" by (rule roundHalfEven_ge)
  then have "(2::rat) ^ 52 \<le> of_int (roundHalfEven (x * 2 powi (52 - ?e)))"
    by (metis of_int_le_iff of_int_numeral of_int_power)
  then have "(2::rat) ^ 52 * 2 powi (?e - 52) \<le> f64 x"
    using f64_pos_eq [OF pos] by (simp add: mult_right_mono)
  moreover have "(2::rat) ^ 52 * 2 powi (?e - 52) = 2 powi ?e"
    using power_int_add [of "2::rat" 52 "?e - 52"] by simp
  moreover have "(1::rat) \<le> 2 powi ?e" using e0 by simp
  ultimately show ?thesis by linarith
qed

lemma f64_small:
  assumes "0 < x" and "x < 1 / 2"
  shows "f64 x \<le> 1 / 2"
proof -
  let ?e = "binexp x"
  from binexp_bounds [OF assms(1)] have b: "2 powi ?e \<le> x" "x < 2 powi (?e + 1)" by simp_all
  have "(2::rat) powi ?e < 2 powi (-1)" using assms(2) b(1) by (simp add: power_int_minus)
  then have e: "?e + 1 \<le> -1" using two_powi_less_imp [of ?e "-1"] by simp
  have "x * 2 powi (52 - ?e) < 2 powi (?e + 1) * 2 powi (52 - ?e)"
    using b(2) by (simp add: mult_strict_right_mono)
  then have "x * 2 powi (52 - ?e) < (2::rat) ^ 53" by (simp add: power_int_add [symmetric])
  then have "x * 2 powi (52 - ?e) < of_int (2 ^ 53) + 1 / 2" by simp
  then have "roundHalfEven (x * 2 powi (52 - ?e)) \<le> 2 ^ 53" by (rule roundHalfEven_le)
  then have "of_int (roundHalfEven (x * 2 powi (52 - ?e))) \<le> (2::rat) ^ 53"
    by (metis of_int_le_iff of_int_numeral of_int_power)
  then have "f64 x \<le> (2::rat) ^ 53 * 2 powi (?e - 52)"
    using f64_pos_eq [OF assms(1)] by (simp add: mult_right_mono)
  moreover have "(2::rat) ^ 53 * 2 powi (?e - 52) = 2 powi (?e + 1)"
    using power_int_add [of "2::rat" 53 "?e - 52"] by (simp add: add.commute)
  moreover have "(2::rat) powi (?e + 1) \<le> 2 powi (-1)" using e by (intro power_int_increasing) simp_all
  ultimately show ?thesis by (simp add: power_int_minus)
qed

lemma f64_half_binade:
  assumes "1 / 2 \<le> x" and "x < 1"
  shows "f64 x = of_int (roundHalfEven (x * 2 ^ 53)) / 2 ^ 53"
proof -
  have "binexp x = -1" using assms by (intro binexp_unique) (simp_all add: power_int_minus)
  moreover have "0 < x" using assms by simp
  ultimately show ?thesis using f64_pos_eq [of x] by (simp add: power_int_minus field_simps)
qed

lemma f64_seven_tenths: "f64 (7 / 10) = 6305039478318694 / 2 ^ 53"
  by code_simp

lemma ratio_above:
  fixes A B :: rat
  assumes "7 * B + 1 \<le> 10 * A" and "B < 9007199254740992"
  shows "63050394783186945 * B < 90071992547409920 * A"
proof -
  have "9007199254740992 * (7 * B + 1) \<le> 9007199254740992 * (10 * A)"
    using assms(1) by (rule mult_left_mono) simp
  then have "63050394783186944 * B + 9007199254740992 \<le> 90071992547409920 * A"
    by (simp add: algebra_simps)
  with assms(2) show ?thesis by linarith
qed
lemma ratio_above_frac:
  fixes A B :: rat
  assumes "63050394783186945 * B < 90071992547409920 * A"
  shows "(6305039478318695 - 1 / 2) * B < A * 9007199254740992"
  using assms by (simp add: algebra_simps)
lemma ratio_below:
  fixes A B :: rat
  assumes "10 * A \<le> 7 * B" and "0 < B"
  shows "A * 9007199254740992 < (6305039478318694 + 1 / 2) * B"
proof -
  have "9007199254740992 * (10 * A) \<le> 9007199254740992 * (7 * B)"
    using assms(1) by (rule mult_left_mono) simp
  then have "90071992547409920 * A \<le> 63050394783186944 * B"
    by (simp add: algebra_simps)
  with assms(2) have "90071992547409920 * A < 63050394783186945 * B" by linarith
  then show ?thesis by (simp add: algebra_simps)
qed

lemma density_exact:
  assumes "0 < b" and "a < 2 ^ 53" and "b < 2 ^ 53"
  shows "(f64 (7 / 10) < f64div (f64 (of_nat a)) (f64 (of_nat b))) = (7 * b < 10 * a)"
proof -
  let ?q = "of_nat a / of_nat b :: rat"
  let ?M = "6305039478318694 :: int"
  have eq: "f64div (f64 (of_nat a)) (f64 (of_nat b)) = f64 ?q"
    using assms by (simp add: f64div_def f64_of_nat)
  have bpos: "(0::rat) < of_nat b" using assms(1) by simp
  have c: "f64 (7 / 10) = of_int ?M / 2 ^ 53" using f64_seven_tenths by simp
  have c_lt_1: "f64 (7 / 10) < 1" and c_ge_half: "1 / 2 \<le> f64 (7 / 10)" by (simp_all add: c)
  have "a = 0 \<or> 1 \<le> ?q \<or> (0 < ?q \<and> ?q < 1 / 2) \<or> (1 / 2 \<le> ?q \<and> ?q < 1)"
  proof (cases "a = 0")
    case True
    then show ?thesis by simp
  next
    case False
    then have "0 < ?q" using bpos by simp
    then show ?thesis by linarith
  qed
  then consider (zero) "a = 0" | (big) "1 \<le> ?q" | (small) "0 < ?q" "?q < 1 / 2"
    | (mid) "1 / 2 \<le> ?q" "?q < 1"
    by blast
  then show ?thesis
  proof cases
    case zero
    then show ?thesis using c_ge_half by (simp add: f64div_def f64_def)
  next
    case big
    then have "b \<le> a" using bpos by (simp add: pos_le_divide_eq)
    then have "7 * b < 10 * a" using assms(1) by simp
    moreover have "f64 (7 / 10) < f64 ?q" using f64_ge_one [OF big] c_lt_1 by linarith
    ultimately show ?thesis by (simp add: eq)
  next
    case small
    from small(2) have "2 * a < b" using bpos by (simp add: pos_divide_less_eq)
    then have "\<not> 7 * b < 10 * a" by simp
    moreover have "\<not> f64 (7 / 10) < f64 ?q" using f64_small [OF small] c_ge_half by linarith
    ultimately show ?thesis by (simp add: eq)
  next
    case mid
    have f: "f64 ?q = of_int (roundHalfEven (?q * 2 ^ 53)) / 2 ^ 53"
      using f64_half_binade [OF mid] .
    have lhs: "(f64 (7 / 10) < f64 ?q) = (?M < roundHalfEven (?q * 2 ^ 53))"
      by (simp add: f c divide_less_cancel del: of_int_numeral)
    show ?thesis
    proof (cases "7 * b < 10 * a")
      case True
      then have "7 * int b + 1 \<le> 10 * int a" by simp
      then have "(7 * of_nat b + 1 :: rat) \<le> 10 * of_nat a"
        by (metis (mono_tags) of_int_le_iff of_int_of_nat_eq of_int_add of_int_mult of_int_numeral of_int_1)
      moreover have "(of_nat b :: rat) < 9007199254740992" using assms(3) by simp
      ultimately have "(6305039478318695 - 1 / 2) * (of_nat b :: rat) < of_nat a * 9007199254740992"
        using ratio_above [of "of_nat b" "of_nat a"] ratio_above_frac [of "of_nat b" "of_nat a"] by blast
      then have "(of_int (?M + 1) - 1 / 2) * (of_nat b :: rat) < of_nat a * 2 ^ 53"
        by simp
      then have "of_int (?M + 1) - 1 / 2 < ?q * 2 ^ 53"
        using bpos by (simp add: pos_less_divide_eq)
      then have "?M + 1 \<le> roundHalfEven (?q * 2 ^ 53)" by (rule roundHalfEven_ge)
      with True show ?thesis by (simp add: eq lhs)
    next
      case False
      then have "10 * int a \<le> 7 * int b" by simp
      then have "(10 * of_nat a :: rat) \<le> 7 * of_nat b"
        by (metis (mono_tags) of_int_le_iff of_int_of_nat_eq of_int_mult of_int_numeral)
      then have "of_nat a * 9007199254740992 < (6305039478318694 + 1 / 2) * (of_nat b :: rat)"
        using bpos by (rule ratio_below)
      then have "of_nat a * 2 ^ 53 < (of_int ?M + 1 / 2) * (of_nat b :: rat)"
        by simp
      then have "?q * 2 ^ 53 < of_int ?M + 1 / 2"
        using bpos by (simp add: pos_divide_less_eq)
      then have "roundHalfEven (?q * 2 ^ 53) \<le> ?M" by (rule roundHalfEven_le)
      with False show ?thesis by (simp add: eq lhs)
    qed
  qed
qed

section \<open>The letter-density rule\<close>

lemma countLoop_counts:
  "countLoop rs (non, letters)
     = (non + length (filter (\<lambda>r. \<not> isLetter r \<and> r \<noteq> 0x20) (map snd rs)),
        letters + length (filter isLetter (map snd rs)))"
  by (induction rs arbitrary: non letters) auto

lemma rangeStr_length: "length (rangeStr j s) \<le> length s"
proof (induction j s rule: rangeStr.induct)
  case (1 j s)
  show ?case
  proof (cases "s = []")
    case True
    then show ?thesis by (subst rangeStr.simps) simp
  next
    case False
    have n: "1 \<le> snd (decodeRune s)" "snd (decodeRune s) \<le> length s"
      using decodeRune_width [OF False] by simp_all
    have "length (rangeStr (j + snd (decodeRune s)) (drop (snd (decodeRune s)) s))
        \<le> length s - snd (decodeRune s)"
      using "1.IH" [OF False] by simp
    with n False show ?thesis by (subst rangeStr.simps) simp
  qed
qed

lemma counts_le_length:
  "letterCount ls \<le> length ls" "nonLetterCount ls \<le> length ls"
proof -
  have "letterCount ls \<le> length (rangeStr 0 ls)"
    unfolding letterCount_def by (metis length_filter_le length_map)
  then show "letterCount ls \<le> length ls" using rangeStr_length [of 0 ls] by simp
  have "nonLetterCount ls \<le> length (rangeStr 0 ls)"
    unfolding nonLetterCount_def by (metis length_filter_le length_map)
  then show "nonLetterCount ls \<le> length ls" using rangeStr_length [of 0 ls] by simp
qed

lemma upper_case_is_letter:
  "0x41 \<le> r \<Longrightarrow> r \<le> 0x5A \<Longrightarrow> isLetter (toLowerRune tbl r)"
  "(0x410 \<le> r \<and> r \<le> 0x42F) \<or> r = 0x401 \<Longrightarrow> isLetter (toLowerRune cyrillicLower r)"
  by (auto simp: isLetter_def toLowerRune_def cyrillicLower_def)

text \<open>
  C9. On a fragment whose lowered form is shorter than \<open>2 ^ 53 - 1\<close> bytes (both
  counts are then exact in \<open>float64\<close>), \<open>isNoisy\<close> is true exactly when one of the
  three lexical rules holds or the density rule does: the lowered fragment has a letter
  (a to z, U+0430 to U+044F, U+0451), and the number of its characters that are neither
  letters nor the space, divided by the number of letters plus one, exceeds 7/10 as
  rational numbers. The comparison the code makes in \<open>float64\<close>, with the rounded
  constant and the rounded quotient, decides the same. A fragment without letters is
  never noisy by this rule.
\<close>

theorem letter_density_rule:
  assumes "length (ToLower tbl s) + 1 < 2 ^ 53"
  shows "isNoisy tbl s =
     (let ls = ToLower tbl s in
      (Contains ls ''{'' \<and> Contains ls ''}'') \<or> (Contains ls ''['' \<and> Contains ls '']'')
      \<or> Contains ls ''widgets'' \<or> Contains ls ''cookie'' \<or> Contains ls ''tracking''
      \<or> (0 < letterCount ls
          \<and> 7 / 10 < (of_nat (nonLetterCount ls) :: rat) / of_nat (letterCount ls + 1)))"
proof -
  let ?ls = "ToLower tbl s"
  let ?l = "letterCount ?ls" and ?n = "nonLetterCount ?ls"
  have cnt: "countLoop (rangeStr 0 ?ls) (0, 0) = (?n, ?l)"
    by (simp add: countLoop_counts letterCount_def nonLetterCount_def)
  have b: "?n < 2 ^ 53" "?l + 1 < 2 ^ 53"
    using counts_le_length [of ?ls] assms by simp_all
  have "(f64 (7 / 10) < f64div (f64 (of_nat ?n)) (f64 (of_nat (?l + 1)))) = (7 * (?l + 1) < 10 * ?n)"
    using density_exact [of "?l + 1" ?n] b by simp
  also have "\<dots> = (7 / 10 < (of_nat ?n :: rat) / of_nat (?l + 1))"
  proof -
    have "(7 * (?l + 1) < 10 * ?n) = ((7 * of_nat (?l + 1) :: rat) < 10 * of_nat ?n)"
      by (metis (mono_tags) of_nat_less_iff of_nat_mult of_nat_numeral)
    also have "\<dots> = (7 / 10 < (of_nat ?n :: rat) / of_nat (?l + 1))"
      by (simp add: field_simps)
    finally show ?thesis .
  qed
  finally have fl: "(f64 (7 / 10) < f64div (f64 (of_nat ?n)) (f64 (of_nat (?l + 1))))
      = (7 / 10 < (of_nat ?n :: rat) / of_nat (?l + 1))" .
  show ?thesis
    unfolding isNoisy_def Let_def cnt using fl by auto
qed

lemma a1234_lower: "ToLower cyrillicLower ''a1234'' = ''a1234''"
  by (simp add: ev)

lemma a1234_counts: "letterCount ''a1234'' = 1" "nonLetterCount ''a1234'' = 4"
  by (simp_all add: letterCount_def nonLetterCount_def isLetter_def ev)

theorem letter_density_rule_witness:
  "length (ToLower cyrillicLower ''a1234'') + 1 < 2 ^ 53
   \<and> letterCount (ToLower cyrillicLower ''a1234'') = 1
   \<and> nonLetterCount (ToLower cyrillicLower ''a1234'') = 4
   \<and> isNoisy cyrillicLower ''a1234''"
  using letter_density_rule [of cyrillicLower "''a1234''"]
  by (simp add: a1234_lower a1234_counts)

end
